theory Spec2Isabelle
  imports Main "HOL-Library.Word" "HOL-Library.Sublist"
begin

unbundle bit_operations_syntax

section \<open>HSR/PRP frame forwarding (net/hsr-prp/hsr\_prp\_forward.c)\<close>

text \<open>
  A shallow embedding of the frame forwarder of the HSR/PRP driver. Socket buffers are
  records holding the linear buffer and the offsets the C code keeps; the node
  registry, the device queues and the allocator are collaborators that are not part of
  the file and enter the model as a record of functions over an abstract external
  state. Calls to the external sinks are appended to a trace.
\<close>

subsection \<open>Constants and wire layout\<close>

type_synonym u8 = "8 word"
type_synonym u16 = "16 word"

text \<open>Modelled from the spec: the headers the source includes (\<^verbatim>\<open>linux/if_ether.h\<close>,
  \<^verbatim>\<open>linux/if_vlan.h\<close>, \<^verbatim>\<open>linux/if_packet.h\<close>, \<^verbatim>\<open>linux/skbuff.h\<close>, \<^verbatim>\<open>hsr_prp_main.h\<close>) are
  not among the source files. The specification gives the VLAN ethertype 0x8100, the
  twelve addressing bytes, the 14-byte Ethernet header, the four bytes of a VLAN
  header and the supervision length 12; the other values are those of the kernel
  headers.\<close>

definition ETH_ALEN :: nat where "ETH_ALEN = 6"
definition ETH_HLEN :: nat where "ETH_HLEN = 14"
definition VLAN_HLEN :: nat where "VLAN_HLEN = 4"
definition HSR_PRP_HLEN :: nat where "HSR_PRP_HLEN = 6"

definition ETH_P_8021Q :: u16 where "ETH_P_8021Q = 0x8100"
definition ETH_P_PRP :: u16 where "ETH_P_PRP = 0x88FB"
definition ETH_P_HSR :: u16 where "ETH_P_HSR = 0x892F"

definition HSR_TLV_ANNOUNCE :: u8 where "HSR_TLV_ANNOUNCE = 22"
definition HSR_TLV_LIFE_CHECK :: u8 where "HSR_TLV_LIFE_CHECK = 23"

text \<open>Modelled from the spec: \<^verbatim>\<open>sizeof(struct hsr_prp_sup_payload)\<close>, the
  "supervision-payload size"; the struct (one MAC address) is declared in
  \<^verbatim>\<open>hsr_prp_main.h\<close>.\<close>

definition sizeof_hsr_prp_sup_payload :: u8 where "sizeof_hsr_prp_sup_payload = 6"

definition PACKET_HOST :: nat where "PACKET_HOST = 0"
definition PACKET_BROADCAST :: nat where "PACKET_BROADCAST = 1"
definition PACKET_MULTICAST :: nat where "PACKET_MULTICAST = 2"
definition PACKET_OTHERHOST :: nat where "PACKET_OTHERHOST = 3"

definition CHECKSUM_PARTIAL :: nat where "CHECKSUM_PARTIAL = 3"

text \<open>Modelled from the spec: the packed structs \<^verbatim>\<open>ethhdr\<close>, \<^verbatim>\<open>hsr_tag\<close>,
  \<^verbatim>\<open>hsr_ethhdr\<close>, \<^verbatim>\<open>hsr_prp_sup_tag\<close>, \<^verbatim>\<open>hsrv0_ethhdr_sp\<close> and \<^verbatim>\<open>hsrv1_ethhdr_sp\<close> are
  declared in headers that are not among the source files. These are the offsets of
  their fields: the tag (lane with payload length, sequence number, encapsulated
  protocol, two bytes each) follows the 14-byte Ethernet header; the supervision tag
  follows the Ethernet header (version 0) or the tag (version 1), its TLV type and
  length being its fifth and sixth byte.\<close>

definition off_h_dest :: nat where "off_h_dest = 0"
definition off_h_source :: nat where "off_h_source = 6"
definition off_h_proto :: nat where "off_h_proto = 12"
definition off_hsr_tag :: nat where "off_hsr_tag = 14"
definition off_tag_path_and_LSDU_size :: nat where "off_tag_path_and_LSDU_size = 0"
definition off_tag_sequence_nr :: nat where "off_tag_sequence_nr = 2"
definition off_tag_encap_proto :: nat where "off_tag_encap_proto = 4"
definition off_v0_hsr_sup :: nat where "off_v0_hsr_sup = 14"
definition off_v1_hsr_sup :: nat where "off_v1_hsr_sup = 20"
definition off_sup_HSR_TLV_type :: nat where "off_sup_HSR_TLV_type = 4"
definition off_sup_HSR_TLV_length :: nat where "off_sup_HSR_TLV_length = 5"

subsection \<open>Memory\<close>

text \<open>A buffer is a list of bytes, addressed by offset. A read out of range yields
  unspecified bytes; a write out of range is not modelled (the theorems below are
  stated for frames long enough for every access to be in range). A big-endian 16-bit
  field is read as the number it carries, so that \<^verbatim>\<open>x == htons(C)\<close> is
  \<open>get_be16 \<dots> = C\<close>.\<close>

definition get_be16 :: "u8 list \<Rightarrow> nat \<Rightarrow> u16" where
  "get_be16 m a = push_bit 8 (ucast (m ! a)) OR ucast (m ! (a + 1))"

definition put_be16 :: "u8 list \<Rightarrow> nat \<Rightarrow> u16 \<Rightarrow> u8 list" where
  "put_be16 m a v = m[a := ucast (drop_bit 8 v), a + 1 := ucast v]"

definition memread :: "u8 list \<Rightarrow> nat \<Rightarrow> nat \<Rightarrow> u8 list" where
  "memread m a n = map (\<lambda>i. m ! i) [a ..< a + n]"

definition memwrite :: "u8 list \<Rightarrow> nat \<Rightarrow> u8 list \<Rightarrow> u8 list" where
  "memwrite m a bs = take a m @ bs @ drop (a + length bs) m"

subsection \<open>Socket buffers\<close>

text \<open>Modelled from the spec: \<^verbatim>\<open>struct sk_buff\<close> and its helpers (\<^verbatim>\<open>skb_pull\<close>,
  \<^verbatim>\<open>skb_push\<close>, \<^verbatim>\<open>skb_headroom\<close>, \<^verbatim>\<open>skb_reset_mac_header\<close>, \<^verbatim>\<open>skb_mac_header\<close>,
  \<^verbatim>\<open>__pskb_copy\<close>, \<^verbatim>\<open>skb_clone\<close>) belong to \<^verbatim>\<open>linux/skbuff.h\<close> and
  \<^verbatim>\<open>net/core/skbuff.c\<close>, which are not among the source files. The specification says
  of them that a copy is a new buffer with the room asked for, that a clone shares
  the frame, and that either returns none when the allocation fails; the rest follows
  the kernel.

  The record holds the fields the forwarder touches. \<open>head\<close> is the linear buffer
  from \<^verbatim>\<open>skb->head\<close> to \<^verbatim>\<open>skb->tail\<close>; \<open>data\<close> and \<open>mac_header\<close> are offsets from
  \<^verbatim>\<open>skb->head\<close>; frames are linear, so \<^verbatim>\<open>skb->len\<close> is the distance from \<open>data\<close> to the
  end of the buffer.\<close>

record sk_buff =
  head :: "u8 list"
  data :: nat
  mac_header :: nat
  protocol :: u16
  pkt_type :: nat
  ip_summed :: nat
  csum_start :: u16
  skb_dev :: nat

datatype fault = NULL_deref | Skb_under_panic

definition skb_len :: "sk_buff \<Rightarrow> nat" where
  "skb_len s = length (head s) - data s"

definition skb_headroom :: "sk_buff \<Rightarrow> nat" where
  "skb_headroom s = data s"

text \<open>\<^verbatim>\<open>skb_pull\<close> returns NULL and leaves the buffer alone when asked for more than
  \<^verbatim>\<open>skb->len\<close>; \<^verbatim>\<open>skb_push\<close> panics when it would move \<open>data\<close> before \<open>head\<close>.\<close>

definition skb_pull :: "sk_buff \<Rightarrow> nat \<Rightarrow> sk_buff" where
  "skb_pull s n = (if n > skb_len s then s else s\<lparr>data := data s + n\<rparr>)"

definition skb_push :: "sk_buff \<Rightarrow> nat \<Rightarrow> fault + sk_buff" where
  "skb_push s n = (if data s < n then Inl Skb_under_panic else Inr (s\<lparr>data := data s - n\<rparr>))"

definition skb_reset_mac_header :: "sk_buff \<Rightarrow> sk_buff" where
  "skb_reset_mac_header s = s\<lparr>mac_header := data s\<rparr>"

text \<open>An allocation either fails (\<open>None\<close>) or yields memory with some previous
  contents (\<open>Some junk\<close>). \<^verbatim>\<open>__pskb_copy\<close> allocates a buffer with the requested
  headroom, copies the linear data behind it and copies the header fields as they are.\<close>

type_synonym allocation = "(nat \<Rightarrow> u8) option"

definition pskb_copy :: "allocation \<Rightarrow> sk_buff \<Rightarrow> nat \<Rightarrow> sk_buff option" where
  "pskb_copy a s headroom =
     (case a of
        None \<Rightarrow> None
      | Some junk \<Rightarrow>
          Some (s\<lparr>head := map junk [0 ..< headroom] @ drop (data s) (head s),
                  data := headroom\<rparr>))"

definition skb_mac_header :: "sk_buff \<Rightarrow> nat" where
  "skb_mac_header s = mac_header s"

definition h_dest :: "sk_buff \<Rightarrow> u8 list" where
  "h_dest s = memread (head s) (skb_mac_header s + off_h_dest) ETH_ALEN"

definition h_proto :: "sk_buff \<Rightarrow> u16" where
  "h_proto s = get_be16 (head s) (skb_mac_header s + off_h_proto)"

subsection \<open>Ports, node state, frame context\<close>

datatype hsr_prp_port_type =
  HSR_PRP_PT_NONE | HSR_PRP_PT_SLAVE_A | HSR_PRP_PT_SLAVE_B
  | HSR_PRP_PT_INTERLINK | HSR_PRP_PT_MASTER

text \<open>\<open>port_id\<close> is the identity of the port object: what a comparison of two
  \<^verbatim>\<open>struct hsr_prp_port *\<close> compares. \<open>dev\<close> names the port's net device.\<close>

record hsr_prp_port =
  port_id :: nat
  ptype :: hsr_prp_port_type
  dev :: nat

text \<open>\<^verbatim>\<open>struct hsr_prp_priv\<close>: the port list in the order
  \<^verbatim>\<open>hsr_prp_for_each_port\<close> walks it, and the fields the forwarder reads. The outgoing
  sequence counter is a \<^verbatim>\<open>u16\<close>. A peer (\<^verbatim>\<open>struct hsr_prp_node *\<close>) is a handle, \<open>None\<close>
  being the null pointer.\<close>

record hsr_prp_priv =
  ports :: "hsr_prp_port list"
  sup_multicast_addr :: "u8 list"
  prot_ver :: u8
  rx_offloaded :: bool
  l2_fwd_offloaded :: bool
  priv_sequence_nr :: u16

record hsr_prp_frame_info =
  skb_std :: "sk_buff option"
  skb_hsr :: "sk_buff option"
  port_rcv :: hsr_prp_port
  node_src :: "nat option"
  sequence_nr :: u16
  is_supervision :: bool
  is_vlan :: bool
  is_local_dest :: bool
  is_local_exclusive :: bool

text \<open>Modelled from the spec: \<^verbatim>\<open>struct net_device_stats\<close> belongs to
  \<^verbatim>\<open>linux/netdevice.h\<close>, which is not among the source files; these are the counters
  the forwarder writes. Each is an \<^verbatim>\<open>unsigned long\<close>: a word of \<open>'l\<close> bits, 32 on the
  32-bit ARM parts and 64 on the 64-bit ones, so that \<open>+\<close> wraps as \<^verbatim>\<open>++\<close> and \<^verbatim>\<open>+=\<close> do
  in C.\<close>

record (overloaded) 'l net_device_stats =
  rx_packets :: "'l::len word"
  rx_bytes :: "'l word"
  rx_dropped :: "'l word"
  tx_dropped :: "'l word"
  multicast :: "'l word"

text \<open>The trace: calls that leave the file, and the accesses to the shared sequence
  counter with the lock operations around them, in program order. \<open>Ev_WARN\<close> records a
  call of \<^verbatim>\<open>WARN_ONCE\<close>, whether or not the kernel still prints for it.\<close>

datatype event =
  Ev_netif_rx hsr_prp_port sk_buff
  | Ev_dev_queue_xmit hsr_prp_port sk_buff
  | Ev_handle_sup_frame hsr_prp_port
  | Ev_kfree_skb sk_buff
  | Ev_WARN
  | Ev_spin_lock_irqsave
  | Ev_read_sequence_nr u16
  | Ev_write_sequence_nr u16
  | Ev_spin_unlock_irqrestore

record (overloaded) ('l, 'x) world =
  priv :: hsr_prp_priv
  stats :: "nat \<Rightarrow> ('l::len) net_device_stats"
  ext :: 'x
  events :: "event list"

text \<open>The collaborators: the node registry (\<^verbatim>\<open>hsr_prp_framereg.c\<close>), the stack
  (\<^verbatim>\<open>netif_rx\<close>, \<^verbatim>\<open>dev_queue_xmit\<close>) and the allocator, as functions over the external
  state \<open>'x\<close>. \<open>netif_rx\<close> answers whether it returned \<^verbatim>\<open>NET_RX_DROP\<close>.\<close>

record 'x collab =
  hsr_prp_get_node :: "'x \<Rightarrow> hsr_prp_port \<Rightarrow> sk_buff \<Rightarrow> bool \<Rightarrow> nat option \<times> 'x"
  hsr_register_frame_in :: "'x \<Rightarrow> nat option \<Rightarrow> hsr_prp_port \<Rightarrow> u16 \<Rightarrow> 'x"
  hsr_register_frame_out :: "'x \<Rightarrow> hsr_prp_port \<Rightarrow> nat option \<Rightarrow> u16 \<Rightarrow> bool \<times> 'x"
  hsr_prp_handle_sup_frame :: "'x \<Rightarrow> sk_buff option \<Rightarrow> nat option \<Rightarrow> hsr_prp_port \<Rightarrow> 'x"
  hsr_addr_subst_source :: "'x \<Rightarrow> nat option \<Rightarrow> sk_buff \<Rightarrow> sk_buff"
  hsr_addr_subst_dest :: "'x \<Rightarrow> nat option \<Rightarrow> sk_buff \<Rightarrow> hsr_prp_port \<Rightarrow> sk_buff"
  hsr_prp_addr_is_self :: "hsr_prp_priv \<Rightarrow> u8 list \<Rightarrow> bool"
  netif_rx :: "'x \<Rightarrow> sk_buff \<Rightarrow> bool \<times> 'x"
  dev_queue_xmit :: "'x \<Rightarrow> sk_buff \<Rightarrow> 'x"
  kmalloc :: "'x \<Rightarrow> allocation \<times> 'x"
  dev_addr :: "nat \<Rightarrow> u8 list"

definition alloc :: "'x collab \<Rightarrow> ('l::len, 'x) world \<Rightarrow> allocation \<times> ('l, 'x) world" where
  "alloc env w = (case kmalloc env (ext w) of (a, x) \<Rightarrow> (a, w\<lparr>ext := x\<rparr>))"

definition emit :: "event \<Rightarrow> ('l::len, 'x) world \<Rightarrow> ('l, 'x) world" where
  "emit e w = w\<lparr>events := events w @ [e]\<rparr>"

text \<open>\<^verbatim>\<open>skb_clone\<close> reads fields of its argument before it allocates, so a null
  argument is a fault; the clone shares the buffer and copies the header fields.\<close>

definition skb_clone ::
  "'x collab \<Rightarrow> ('l::len, 'x) world \<Rightarrow> sk_buff option \<Rightarrow> (fault \<times> ('l, 'x) world) + (sk_buff option \<times> ('l, 'x) world)" where
  "skb_clone env w skb =
     (case skb of
        None \<Rightarrow> Inl (NULL_deref, w)
      | Some s \<Rightarrow>
          (case alloc env w of
             (None, w1) \<Rightarrow> Inr (None, w1)
           | (Some junk, w1) \<Rightarrow> Inr (Some s, w1)))"

subsection \<open>Classification of supervision frames\<close>

text \<open>The early returns of the source, in their order. The \<^verbatim>\<open>WARN_ON_ONCE\<close> about an
  unset MAC header only logs, and is left out.\<close>

definition is_supervision_frame :: "hsr_prp_priv \<Rightarrow> sk_buff \<Rightarrow> bool" where
  "is_supervision_frame p skb =
     (let m = skb_mac_header skb in
      if h_dest skb \<noteq> sup_multicast_addr p then False
      else if \<not> (h_proto skb = ETH_P_PRP \<or> h_proto skb = ETH_P_HSR) then False
      else if h_proto skb = ETH_P_HSR
              \<and> get_be16 (head skb) (m + off_hsr_tag + off_tag_encap_proto) \<noteq> ETH_P_PRP
        then False
      else
        (let hsr_sup_tag = (if h_proto skb = ETH_P_HSR then m + off_v1_hsr_sup
                            else m + off_v0_hsr_sup) in
         if head skb ! (hsr_sup_tag + off_sup_HSR_TLV_type) \<noteq> HSR_TLV_ANNOUNCE
            \<and> head skb ! (hsr_sup_tag + off_sup_HSR_TLV_type) \<noteq> HSR_TLV_LIFE_CHECK
           then False
         else if head skb ! (hsr_sup_tag + off_sup_HSR_TLV_length) \<noteq> 12
            \<and> head skb ! (hsr_sup_tag + off_sup_HSR_TLV_length) \<noteq> sizeof_hsr_prp_sup_payload
           then False
         else True))"

subsection \<open>Tag codec\<close>

text \<open>Stripping the tag. The result pairs the input buffer as the call leaves it with
  the new buffer (\<open>None\<close> when the allocation failed). The headroom argument of
  \<^verbatim>\<open>__pskb_copy\<close> is a natural number here: it would be negative only when the
  following \<^verbatim>\<open>skb_push\<close> panics.\<close>

definition create_stripped_skb ::
  "allocation \<Rightarrow> sk_buff option \<Rightarrow> hsr_prp_frame_info \<Rightarrow> fault + (sk_buff option \<times> sk_buff option)" where
  "create_stripped_skb a skb_in frame =
     (case skb_in of
        None \<Rightarrow> Inl NULL_deref
      | Some s0 \<Rightarrow>
          (let s1 = skb_pull s0 HSR_PRP_HLEN;
               copy = pskb_copy a s1 (skb_headroom s1 - HSR_PRP_HLEN)
           in case skb_push s1 HSR_PRP_HLEN of
                Inl f \<Rightarrow> Inl f
              | Inr s2 \<Rightarrow>
                  (case copy of
                     None \<Rightarrow> Inr (Some s2, None)
                   | Some skb \<Rightarrow>
                       (let skb1 = skb_reset_mac_header skb;
                            skb2 = (if ip_summed skb1 = CHECKSUM_PARTIAL
                                    then skb1\<lparr>csum_start := csum_start skb1 - of_nat HSR_PRP_HLEN\<rparr>
                                    else skb1);
                            copylen = (if is_vlan frame then 2 * ETH_ALEN + VLAN_HLEN
                                       else 2 * ETH_ALEN);
                            src = skb_mac_header s2;
                            dst = skb_mac_header skb2;
                            skb3 = skb2\<lparr>head := memwrite (head skb2) dst (memread (head s2) src copylen)\<rparr>
                        in Inr (Some s2, Some (skb3\<lparr>protocol := h_proto skb3\<rparr>))))))"

text \<open>Modelled from the spec: the tag accessors \<^verbatim>\<open>set_hsr_tag_path\<close>,
  \<^verbatim>\<open>set_hsr_tag_LSDU_size\<close> and \<^verbatim>\<open>hsr_get_skb_sequence_nr\<close> of \<^verbatim>\<open>hsr_prp_main.h\<close>
  are not among the source files. The first 16-bit word of the tag carries the lane
  (path) in its top four bits and the payload length in the low twelve; the sequence
  number is the big-endian second word.\<close>

definition set_hsr_tag_path :: "u8 list \<Rightarrow> nat \<Rightarrow> u16 \<Rightarrow> u8 list" where
  "set_hsr_tag_path m ht path =
     put_be16 m (ht + off_tag_path_and_LSDU_size)
       ((get_be16 m (ht + off_tag_path_and_LSDU_size) AND 0x0FFF) OR push_bit 12 path)"

definition set_hsr_tag_LSDU_size :: "u8 list \<Rightarrow> nat \<Rightarrow> u16 \<Rightarrow> u8 list" where
  "set_hsr_tag_LSDU_size m ht LSDU_size =
     put_be16 m (ht + off_tag_path_and_LSDU_size)
       ((get_be16 m (ht + off_tag_path_and_LSDU_size) AND 0xF000) OR (LSDU_size AND 0x0FFF))"

definition hsr_get_skb_sequence_nr :: "sk_buff \<Rightarrow> u16" where
  "hsr_get_skb_sequence_nr skb =
     get_be16 (head skb) (skb_mac_header skb + off_hsr_tag + off_tag_sequence_nr)"

definition hsr_fill_tag :: "sk_buff \<Rightarrow> hsr_prp_frame_info \<Rightarrow> hsr_prp_port \<Rightarrow> u8 \<Rightarrow> sk_buff" where
  "hsr_fill_tag skb frame port proto_ver =
     (let lane_id = (if ptype port = HSR_PRP_PT_SLAVE_A then 0 else 1 :: u16);
          lsdu_size0 = (of_nat (skb_len skb) - 14 :: u16);
          lsdu_size = (if is_vlan frame then lsdu_size0 - 4 else lsdu_size0);
          hsr_ethhdr = skb_mac_header skb;
          hsr_tag = hsr_ethhdr + off_hsr_tag;
          m1 = set_hsr_tag_path (head skb) hsr_tag lane_id;
          m2 = set_hsr_tag_LSDU_size m1 hsr_tag lsdu_size;
          m3 = put_be16 m2 (hsr_tag + off_tag_sequence_nr) (sequence_nr frame);
          m4 = put_be16 m3 (hsr_tag + off_tag_encap_proto) (get_be16 m3 (hsr_ethhdr + off_h_proto));
          m5 = put_be16 m4 (hsr_ethhdr + off_h_proto)
                 (if proto_ver \<noteq> 0 then ETH_P_HSR else ETH_P_PRP)
      in skb\<lparr>head := m5\<rparr>)"

definition create_tagged_skb ::
  "allocation \<Rightarrow> sk_buff option \<Rightarrow> hsr_prp_frame_info \<Rightarrow> hsr_prp_port \<Rightarrow> u8 \<Rightarrow> fault + sk_buff option" where
  "create_tagged_skb a skb_o frame port proto_ver =
     (case skb_o of
        None \<Rightarrow> Inl NULL_deref
      | Some so \<Rightarrow>
          (case pskb_copy a so (skb_headroom so + HSR_PRP_HLEN) of
             None \<Rightarrow> Inr None
           | Some skb \<Rightarrow>
               (let skb1 = skb_reset_mac_header skb;
                    skb2 = (if ip_summed skb1 = CHECKSUM_PARTIAL
                            then skb1\<lparr>csum_start := csum_start skb1 + of_nat HSR_PRP_HLEN\<rparr>
                            else skb1);
                    movelen = (if is_vlan frame then ETH_HLEN + VLAN_HLEN else ETH_HLEN);
                    src = skb_mac_header skb2
                in case skb_push skb2 HSR_PRP_HLEN of
                     Inl f \<Rightarrow> Inl f
                   | Inr skb3 \<Rightarrow>
                       (let dst = data skb3;
                            skb4 = skb3\<lparr>head := memwrite (head skb3) dst (memread (head skb3) src movelen)\<rparr>;
                            skb5 = skb_reset_mac_header skb4
                        in Inr (Some (hsr_fill_tag skb5 frame port proto_ver))))))"

subsection \<open>Obtaining the copy for a port\<close>

text \<open>The allocator is asked just before each call of the codec.\<close>

type_synonym ('l, 'x) copy_result =
  "(fault \<times> ('l, 'x) world) + (sk_buff option \<times> ('l, 'x) world \<times> hsr_prp_frame_info)"

definition frame_get_stripped_skb ::
  "'x collab \<Rightarrow> ('l::len, 'x) world \<Rightarrow> hsr_prp_frame_info \<Rightarrow> hsr_prp_port \<Rightarrow> ('l, 'x) copy_result" where
  "frame_get_stripped_skb env w frame port =
     (case (if skb_std frame = None
            then (case alloc env w of
                    (a, w1) \<Rightarrow>
                      (case create_stripped_skb a (skb_hsr frame) frame of
                         Inl f \<Rightarrow> Inl (f, w1)
                       | Inr (skb_in, skb) \<Rightarrow> Inr (w1, frame\<lparr>skb_std := skb, skb_hsr := skb_in\<rparr>)))
            else Inr (w, frame)) of
        Inl e \<Rightarrow> Inl e
      | Inr (w1, frame1) \<Rightarrow>
          (case skb_clone env w1 (skb_std frame1) of
             Inl e \<Rightarrow> Inl e
           | Inr (skb, w2) \<Rightarrow> Inr (skb, w2, frame1)))"

definition frame_get_tagged_skb ::
  "'x collab \<Rightarrow> ('l::len, 'x) world \<Rightarrow> hsr_prp_frame_info \<Rightarrow> hsr_prp_port \<Rightarrow> ('l, 'x) copy_result" where
  "frame_get_tagged_skb env w frame port =
     (if skb_hsr frame \<noteq> None
      then (case skb_clone env w (skb_hsr frame) of
              Inl e \<Rightarrow> Inl e
            | Inr (skb, w1) \<Rightarrow> Inr (skb, w1, frame))
      else if ptype port \<noteq> HSR_PRP_PT_SLAVE_A \<and> ptype port \<noteq> HSR_PRP_PT_SLAVE_B
      then Inr (None, emit Ev_WARN w, frame)
      else (case alloc env w of
              (a, w1) \<Rightarrow>
                (case create_tagged_skb a (skb_std frame) frame port (prot_ver (priv w1)) of
                   Inl f \<Rightarrow> Inl (f, w1)
                 | Inr skb \<Rightarrow> Inr (skb, w1, frame))))"

subsection \<open>Dispatch sinks\<close>

text \<open>Both sinks also return the buffer as the address substitution left it: a clone
  shares its bytes with the frame it was cloned from.\<close>

definition hsr_prp_deliver_master ::
  "'x collab \<Rightarrow> ('l::len, 'x) world \<Rightarrow> sk_buff \<Rightarrow> nat option \<Rightarrow> hsr_prp_port \<Rightarrow> ('l, 'x) world \<times> sk_buff" where
  "hsr_prp_deliver_master env w skb node port =
     (let was_multicast_frame = (pkt_type skb = PACKET_MULTICAST);
          skb1 = (if \<not> rx_offloaded (priv w)
                  then hsr_addr_subst_source env (ext w) node skb else skb);
          skb2 = skb_pull skb1 ETH_HLEN
      in case netif_rx env (ext w) skb2 of
           (dropped, x) \<Rightarrow>
             (let w1 = emit (Ev_netif_rx port skb2) (w\<lparr>ext := x\<rparr>);
                  st = stats w1 (dev port);
                  st' = (if dropped then st\<lparr>rx_dropped := rx_dropped st + 1\<rparr>
                         else st\<lparr>rx_packets := rx_packets st + 1,
                                 rx_bytes := rx_bytes st + of_nat (skb_len skb2),
                                 multicast := (if was_multicast_frame then multicast st + 1
                                               else multicast st)\<rparr>)
              in (w1\<lparr>stats := (stats w1)(dev port := st')\<rparr>, skb1)))"

definition hsr_prp_xmit ::
  "'x collab \<Rightarrow> ('l::len, 'x) world \<Rightarrow> sk_buff \<Rightarrow> hsr_prp_port \<Rightarrow> hsr_prp_frame_info \<Rightarrow> ('l, 'x) world \<times> sk_buff" where
  "hsr_prp_xmit env w skb port frame =
     (let skb1 = (if \<not> rx_offloaded (priv w) \<and> ptype (port_rcv frame) = HSR_PRP_PT_MASTER
                  then (let s = hsr_addr_subst_dest env (ext w) (node_src frame) skb port
                        in s\<lparr>head := memwrite (head s) (skb_mac_header s + off_h_source)
                                       (memread (dev_addr env (dev port)) 0 ETH_ALEN)\<rparr>)
                  else skb)
      in (emit (Ev_dev_queue_xmit port skb1) (w\<lparr>ext := dev_queue_xmit env (ext w) skb1\<rparr>), skb1))"

subsection \<open>Forwarding engine\<close>

definition share_head :: "sk_buff \<Rightarrow> sk_buff option \<Rightarrow> sk_buff option" where
  "share_head skb orig = map_option (\<lambda>s. s\<lparr>head := head skb\<rparr>) orig"

text \<open>Lines 310 to 313: the copy for a port that passed the guards.\<close>

definition get_skb_for_port ::
  "'x collab \<Rightarrow> ('l::len, 'x) world \<Rightarrow> hsr_prp_frame_info \<Rightarrow> hsr_prp_port \<Rightarrow> ('l, 'x) copy_result" where
  "get_skb_for_port env w frame port =
     (if ptype port \<noteq> HSR_PRP_PT_MASTER
      then frame_get_tagged_skb env w frame port
      else frame_get_stripped_skb env w frame port)"

text \<open>Lines 310 to 323: the rest of the loop body for such a port. A buffer handed to
  a sink may have been rewritten by the address substitution; the frame it was cloned
  from sees the same bytes.\<close>

definition dispatch_port ::
  "'x collab \<Rightarrow> ('l::len, 'x) world \<Rightarrow> hsr_prp_frame_info \<Rightarrow> hsr_prp_port
     \<Rightarrow> (fault \<times> ('l, 'x) world) + (('l, 'x) world \<times> hsr_prp_frame_info)" where
  "dispatch_port env w frame port =
     (case get_skb_for_port env w frame port of
        Inl e \<Rightarrow> Inl e
      | Inr (None, w2, frame2) \<Rightarrow> Inr (w2, frame2)
      | Inr (Some skb0, w2, frame2) \<Rightarrow>
          (let skb = skb0\<lparr>skb_dev := dev port\<rparr> in
           if ptype port = HSR_PRP_PT_MASTER
           then (case hsr_prp_deliver_master env w2 skb (node_src frame2) port of
                   (w3, skb1) \<Rightarrow>
                     Inr (w3, frame2\<lparr>skb_std := share_head skb1 (skb_std frame2)\<rparr>))
           else (case hsr_prp_xmit env w2 skb port frame2 of
                   (w3, skb1) \<Rightarrow>
                     Inr (w3, if skb_hsr frame2 \<noteq> None
                              then frame2\<lparr>skb_hsr := share_head skb1 (skb_hsr frame2)\<rparr>
                              else frame2))))"

text \<open>The body of the loop of \<^verbatim>\<open>hsr_prp_forward_do\<close>, for one port: the six guards
  in the order of the source, then the dispatch. Every port of the list has the same
  \<^verbatim>\<open>port->priv\<close>, the node state of the world.\<close>

definition forward_do_port ::
  "'x collab \<Rightarrow> ('l::len, 'x) world \<times> hsr_prp_frame_info \<Rightarrow> hsr_prp_port
     \<Rightarrow> (fault \<times> ('l, 'x) world) + (('l, 'x) world \<times> hsr_prp_frame_info)" where
  "forward_do_port env s port =
     (case s of
        (w, frame) \<Rightarrow>
          if port_id port = port_id (port_rcv frame) then Inr (w, frame)
          else if ptype port = HSR_PRP_PT_MASTER \<and> \<not> is_local_dest frame then Inr (w, frame)
          else if ptype port \<noteq> HSR_PRP_PT_MASTER \<and> is_local_exclusive frame then Inr (w, frame)
          else
            (case (if \<not> rx_offloaded (priv w)
                   then (case hsr_register_frame_out env (ext w) port (node_src frame)
                                (sequence_nr frame) of
                           (sent, x) \<Rightarrow> (sent, w\<lparr>ext := x\<rparr>))
                   else (False, w)) of
               (sent, w1) \<Rightarrow>
                 if sent then Inr (w1, frame)
                 else if is_supervision frame \<and> ptype port = HSR_PRP_PT_MASTER
                         \<and> \<not> rx_offloaded (priv w1)
                 then Inr (emit (Ev_handle_sup_frame port)
                             (w1\<lparr>ext := hsr_prp_handle_sup_frame env (ext w1) (skb_hsr frame)
                                          (node_src frame) (port_rcv frame)\<rparr>), frame)
                 else if l2_fwd_offloaded (priv w1)
                         \<and> ((ptype (port_rcv frame) = HSR_PRP_PT_SLAVE_A
                              \<and> ptype port = HSR_PRP_PT_SLAVE_B)
                            \<or> (ptype (port_rcv frame) = HSR_PRP_PT_SLAVE_B
                              \<and> ptype port = HSR_PRP_PT_SLAVE_A))
                 then Inr (w1, frame)
                 else dispatch_port env w1 frame port))"

fun for_each_port ::
  "'x collab \<Rightarrow> ('l::len, 'x) world \<times> hsr_prp_frame_info \<Rightarrow> hsr_prp_port list
     \<Rightarrow> (fault \<times> ('l, 'x) world) + (('l, 'x) world \<times> hsr_prp_frame_info)" where
  "for_each_port env s [] = Inr s"
| "for_each_port env s (port # rest) =
     (case forward_do_port env s port of
        Inl e \<Rightarrow> Inl e
      | Inr s' \<Rightarrow> for_each_port env s' rest)"

definition hsr_prp_forward_do ::
  "'x collab \<Rightarrow> ('l::len, 'x) world \<Rightarrow> hsr_prp_frame_info
     \<Rightarrow> (fault \<times> ('l, 'x) world) + (('l, 'x) world \<times> hsr_prp_frame_info)" where
  "hsr_prp_forward_do env w frame = for_each_port env (w, frame) (ports (priv w))"

subsection \<open>Classifier\<close>

definition check_local_dest ::
  "'x collab \<Rightarrow> hsr_prp_priv \<Rightarrow> sk_buff \<Rightarrow> hsr_prp_frame_info \<Rightarrow> sk_buff \<times> hsr_prp_frame_info" where
  "check_local_dest env p skb frame =
     (case (if hsr_prp_addr_is_self env p (h_dest skb)
            then (skb\<lparr>pkt_type := PACKET_HOST\<rparr>, frame\<lparr>is_local_exclusive := True\<rparr>)
            else (skb, frame\<lparr>is_local_exclusive := False\<rparr>)) of
        (skb1, frame1) \<Rightarrow>
          if pkt_type skb1 = PACKET_HOST \<or> pkt_type skb1 = PACKET_MULTICAST
             \<or> pkt_type skb1 = PACKET_BROADCAST
          then (skb1, frame1\<lparr>is_local_dest := True\<rparr>)
          else (skb1, frame1\<lparr>is_local_dest := False\<rparr>))"

text \<open>Lines 389 to 392: the counter is read and incremented between taking and
  releasing \<^verbatim>\<open>seqnr_lock\<close>. The counter is a \<^verbatim>\<open>u16\<close> and wraps.\<close>

definition assign_sequence_nr ::
  "('l::len, 'x) world \<Rightarrow> hsr_prp_frame_info \<Rightarrow> ('l, 'x) world \<times> hsr_prp_frame_info" where
  "assign_sequence_nr w frame =
     (let w1 = emit Ev_spin_lock_irqsave w;
          frame1 = frame\<lparr>sequence_nr := priv_sequence_nr (priv w1)\<rparr>;
          w2 = emit (Ev_read_sequence_nr (priv_sequence_nr (priv w1))) w1;
          w3 = w2\<lparr>priv := (priv w2)\<lparr>priv_sequence_nr := priv_sequence_nr (priv w2) + 1\<rparr>\<rparr>;
          w4 = emit (Ev_write_sequence_nr (priv_sequence_nr (priv w3))) w3;
          w5 = emit Ev_spin_unlock_irqrestore w4
      in (w5, frame1))"

text \<open>The result is \<open>None\<close> where the C function returns -1. \<open>frame\<close> is the caller's
  uninitialised context. \<^verbatim>\<open>check_local_dest\<close> writes \<^verbatim>\<open>pkt_type\<close> into the buffer the
  context already points to.\<close>

definition hsr_prp_fill_frame_info ::
  "'x collab \<Rightarrow> ('l::len, 'x) world \<Rightarrow> hsr_prp_frame_info \<Rightarrow> sk_buff \<Rightarrow> hsr_prp_port
     \<Rightarrow> ('l, 'x) world \<times> hsr_prp_frame_info option" where
  "hsr_prp_fill_frame_info env w frame skb port =
     (let frame1 = frame\<lparr>is_supervision := is_supervision_frame (priv w) skb\<rparr> in
      if is_supervision frame1 \<and> rx_offloaded (priv w) \<and> ptype port \<noteq> HSR_PRP_PT_MASTER
      then (emit Ev_WARN w, None)
      else
        (case (if \<not> rx_offloaded (priv w)
               then (case hsr_prp_get_node env (ext w) port skb (is_supervision frame1) of
                       (n, x) \<Rightarrow> (w\<lparr>ext := x\<rparr>, frame1\<lparr>node_src := n\<rparr>, n \<noteq> None))
               else (w, frame1, True)) of
           (w1, frame2, found) \<Rightarrow>
             if \<not> found then (w1, None)
             else
               (case (if h_proto skb = ETH_P_8021Q
                      then (emit Ev_WARN w1, frame2\<lparr>is_vlan := True\<rparr>)
                      else (w1, frame2\<lparr>is_vlan := False\<rparr>)) of
                  (w2, frame3) \<Rightarrow>
                    (case (if h_proto skb = ETH_P_PRP \<or> h_proto skb = ETH_P_HSR
                           then (w2, frame3\<lparr>skb_std := None, skb_hsr := Some skb,
                                           sequence_nr := hsr_get_skb_sequence_nr skb\<rparr>)
                           else assign_sequence_nr w2 (frame3\<lparr>skb_std := Some skb, skb_hsr := None\<rparr>)) of
                       (w3, frame4) \<Rightarrow>
                         (case check_local_dest env (priv w3) skb (frame4\<lparr>port_rcv := port\<rparr>) of
                            (skb1, frame5) \<Rightarrow>
                              (w3, Some (frame5\<lparr>skb_std := map_option (\<lambda>_. skb1) (skb_std frame5),
                                                skb_hsr := map_option (\<lambda>_. skb1) (skb_hsr frame5)\<rparr>)))))))"

subsection \<open>Entry point\<close>

definition out_drop :: "('l::len, 'x) world \<Rightarrow> sk_buff \<Rightarrow> hsr_prp_port \<Rightarrow> ('l, 'x) world" where
  "out_drop w skb port =
     emit (Ev_kfree_skb skb)
       (w\<lparr>stats := (stats w)(dev port :=
             (stats w (dev port))\<lparr>tx_dropped := tx_dropped (stats w (dev port)) + 1\<rparr>)\<rparr>)"

definition kfree_skb_opt :: "sk_buff option \<Rightarrow> ('l::len, 'x) world \<Rightarrow> ('l, 'x) world" where
  "kfree_skb_opt skb w = (case skb of None \<Rightarrow> w | Some s \<Rightarrow> emit (Ev_kfree_skb s) w)"

definition hsr_prp_forward_skb ::
  "'x collab \<Rightarrow> ('l::len, 'x) world \<Rightarrow> hsr_prp_frame_info \<Rightarrow> sk_buff \<Rightarrow> hsr_prp_port
     \<Rightarrow> (fault \<times> ('l, 'x) world) + ('l, 'x) world" where
  "hsr_prp_forward_skb env w ctx skb port =
     (if skb_mac_header skb \<noteq> data skb then Inr (out_drop (emit Ev_WARN w) skb port)
      else
        (case hsr_prp_fill_frame_info env w ctx skb port of
           (w1, None) \<Rightarrow> Inr (out_drop w1 skb port)
         | (w1, Some frame) \<Rightarrow>
             (let w2 = (if \<not> rx_offloaded (priv w1)
                        then w1\<lparr>ext := hsr_register_frame_in env (ext w1) (node_src frame) port
                                         (sequence_nr frame)\<rparr>
                        else w1)
              in case hsr_prp_forward_do env w2 frame of
                   Inl e \<Rightarrow> Inl e
                 | Inr (w3, frame') \<Rightarrow>
                     Inr (kfree_skb_opt (skb_std frame') (kfree_skb_opt (skb_hsr frame') w3)))))"

subsection \<open>The tag layout, as the specification words it\<close>

text \<open>The bytes from \<open>data\<close> to the end of the buffer, the two bytes of a big-endian
  field, and the two transforms on those bytes: tagging keeps the twelve addressing
  bytes, writes the outer ethertype, the lane with the payload length, the sequence
  number and the original ethertype, and keeps the payload; stripping keeps the
  addressing bytes and what follows the first eighteen bytes.\<close>

definition skb_data :: "sk_buff \<Rightarrow> u8 list" where
  "skb_data s = drop (data s) (head s)"

definition be16_bytes :: "u16 \<Rightarrow> u8 list" where
  "be16_bytes v = [ucast (drop_bit 8 v), ucast v]"

definition tagged_layout :: "u8 list \<Rightarrow> u16 \<Rightarrow> u16 \<Rightarrow> u16 \<Rightarrow> u16 \<Rightarrow> u8 list" where
  "tagged_layout F ethertype lane lsdu seq =
     take 12 F @ be16_bytes ethertype @ be16_bytes (push_bit 12 lane OR (lsdu AND 0x0FFF))
       @ be16_bytes seq @ take 2 (drop 12 F) @ drop 14 F"

definition stripped_layout :: "u8 list \<Rightarrow> u8 list" where
  "stripped_layout T = take 12 T @ drop 18 T"

text \<open>Modelled from the spec: the readers of the tag fields (\<^verbatim>\<open>get_hsr_tag_path\<close> and
  \<^verbatim>\<open>get_hsr_tag_LSDU_size\<close> of \<^verbatim>\<open>hsr_prp_main.h\<close>, not among the source files), with the
  layout of the writers above.\<close>

definition get_hsr_tag_path :: "sk_buff \<Rightarrow> u16" where
  "get_hsr_tag_path skb =
     drop_bit 12 (get_be16 (head skb) (skb_mac_header skb + off_hsr_tag + off_tag_path_and_LSDU_size))"

definition get_hsr_tag_LSDU_size :: "sk_buff \<Rightarrow> u16" where
  "get_hsr_tag_LSDU_size skb =
     get_be16 (head skb) (skb_mac_header skb + off_hsr_tag + off_tag_path_and_LSDU_size) AND 0x0FFF"

definition hsr_tag_encap_proto :: "sk_buff \<Rightarrow> u16" where
  "hsr_tag_encap_proto skb =
     get_be16 (head skb) (skb_mac_header skb + off_hsr_tag + off_tag_encap_proto)"

subsection \<open>The exclusion predicates, as the specification words them\<close>

text \<open>The six predicates of the forwarding engine's port loop, each as a test of its
  own on the frame context and the candidate port, and the first of them that holds.\<close>

definition excl_receiving_port :: "hsr_prp_frame_info \<Rightarrow> hsr_prp_port \<Rightarrow> bool" where
  "excl_receiving_port frame port \<longleftrightarrow> port_id port = port_id (port_rcv frame)"

definition excl_master_not_local :: "hsr_prp_frame_info \<Rightarrow> hsr_prp_port \<Rightarrow> bool" where
  "excl_master_not_local frame port \<longleftrightarrow> ptype port = HSR_PRP_PT_MASTER \<and> \<not> is_local_dest frame"

definition excl_slave_exclusive :: "hsr_prp_frame_info \<Rightarrow> hsr_prp_port \<Rightarrow> bool" where
  "excl_slave_exclusive frame port \<longleftrightarrow> ptype port \<noteq> HSR_PRP_PT_MASTER \<and> is_local_exclusive frame"

definition excl_duplicate ::
  "'x collab \<Rightarrow> ('l::len, 'x) world \<Rightarrow> hsr_prp_frame_info \<Rightarrow> hsr_prp_port \<Rightarrow> bool" where
  "excl_duplicate env w frame port \<longleftrightarrow>
     \<not> rx_offloaded (priv w)
     \<and> fst (hsr_register_frame_out env (ext w) port (node_src frame) (sequence_nr frame))"

definition excl_supervision :: "('l::len, 'x) world \<Rightarrow> hsr_prp_frame_info \<Rightarrow> hsr_prp_port \<Rightarrow> bool" where
  "excl_supervision w frame port \<longleftrightarrow>
     is_supervision frame \<and> ptype port = HSR_PRP_PT_MASTER \<and> \<not> rx_offloaded (priv w)"

definition excl_cross_slave :: "('l::len, 'x) world \<Rightarrow> hsr_prp_frame_info \<Rightarrow> hsr_prp_port \<Rightarrow> bool" where
  "excl_cross_slave w frame port \<longleftrightarrow>
     l2_fwd_offloaded (priv w)
     \<and> {ptype (port_rcv frame), ptype port} = {HSR_PRP_PT_SLAVE_A, HSR_PRP_PT_SLAVE_B}"

text \<open>The registry is asked about a port only when the first three predicates are
  false and receive-offload is disabled; this is the world after the question.\<close>

definition after_register ::
  "'x collab \<Rightarrow> ('l::len, 'x) world \<Rightarrow> hsr_prp_frame_info \<Rightarrow> hsr_prp_port \<Rightarrow> ('l, 'x) world" where
  "after_register env w frame port =
     (if rx_offloaded (priv w) then w
      else w\<lparr>ext := snd (hsr_register_frame_out env (ext w) port (node_src frame)
                           (sequence_nr frame))\<rparr>)"

datatype exclusion = Excl_a | Excl_b | Excl_c | Excl_d | Excl_e | Excl_f

definition first_exclusion ::
  "'x collab \<Rightarrow> ('l::len, 'x) world \<Rightarrow> hsr_prp_frame_info \<Rightarrow> hsr_prp_port \<Rightarrow> exclusion option" where
  "first_exclusion env w frame port =
     (if excl_receiving_port frame port then Some Excl_a
      else if excl_master_not_local frame port then Some Excl_b
      else if excl_slave_exclusive frame port then Some Excl_c
      else if excl_duplicate env w frame port then Some Excl_d
      else if excl_supervision w frame port then Some Excl_e
      else if excl_cross_slave w frame port then Some Excl_f
      else None)"

subsection \<open>Reading the trace\<close>

definition new_events :: "('l::len, 'x) world \<Rightarrow> ('l, 'x) world \<Rightarrow> event list" where
  "new_events w w' = drop (length (events w)) (events w')"

text \<open>A dispatch attempt is a call of one of the two sinks: \<^verbatim>\<open>netif_rx\<close> for local
  delivery, \<^verbatim>\<open>dev_queue_xmit\<close> for egress; \<open>dispatches\<close> lists the attempts of a trace
  with their ports.\<close>

datatype sink = Local_delivery | Egress

fun dispatch_of :: "event \<Rightarrow> (sink \<times> hsr_prp_port) option" where
  "dispatch_of (Ev_netif_rx p s) = Some (Local_delivery, p)"
| "dispatch_of (Ev_dev_queue_xmit p s) = Some (Egress, p)"
| "dispatch_of e = None"

definition dispatches :: "event list \<Rightarrow> (sink \<times> hsr_prp_port) list" where
  "dispatches es = List.map_filter dispatch_of es"

fun is_seqnr_event :: "event \<Rightarrow> bool" where
  "is_seqnr_event Ev_spin_lock_irqsave = True"
| "is_seqnr_event (Ev_read_sequence_nr v) = True"
| "is_seqnr_event (Ev_write_sequence_nr v) = True"
| "is_seqnr_event Ev_spin_unlock_irqrestore = True"
| "is_seqnr_event e = False"

text \<open>The world in which a run ended, whether it completed or faulted.\<close>

definition res_world :: "(fault \<times> ('l::len, 'x) world) + (('l, 'x) world \<times> hsr_prp_frame_info) \<Rightarrow> ('l, 'x) world" where
  "res_world r = (case r of Inl (f, w) \<Rightarrow> w | Inr (w, fr) \<Rightarrow> w)"

definition final_world :: "(fault \<times> ('l::len, 'x) world) + ('l, 'x) world \<Rightarrow> ('l, 'x) world" where
  "final_world r = (case r of Inl (f, w) \<Rightarrow> w | Inr w \<Rightarrow> w)"

text \<open>What a step may do to the world: it leaves the node state alone, appends to the
  trace, and counts no transmit drop. And what it may do to the frame context: only
  the two cached buffers change.\<close>

definition step_effect :: "('l::len, 'x) world \<Rightarrow> ('l, 'x) world \<Rightarrow> event list \<Rightarrow> bool" where
  "step_effect w w' es \<longleftrightarrow>
     priv w' = priv w \<and> events w' = events w @ es
     \<and> (\<forall>d. tx_dropped (stats w' d) = tx_dropped (stats w d))"

definition same_context :: "hsr_prp_frame_info \<Rightarrow> hsr_prp_frame_info \<Rightarrow> bool" where
  "same_context fr fr' \<longleftrightarrow>
     port_rcv fr' = port_rcv fr \<and> node_src fr' = node_src fr \<and> sequence_nr fr' = sequence_nr fr
     \<and> is_supervision fr' = is_supervision fr \<and> is_vlan fr' = is_vlan fr
     \<and> is_local_dest fr' = is_local_dest fr \<and> is_local_exclusive fr' = is_local_exclusive fr"

text \<open>The one dispatch a port can get: local delivery for a master port, egress for
  any other.\<close>

definition port_dispatch :: "hsr_prp_port \<Rightarrow> sink \<times> hsr_prp_port" where
  "port_dispatch port = (if ptype port = HSR_PRP_PT_MASTER then Local_delivery else Egress, port)"

subsection \<open>A concrete node\<close>

text \<open>A node with a master port and two slave ports, protocol version 1, no offload,
  outgoing counter at 5. Its registry answers every lookup with peer 1 and remembers
  the (port, sequence number) pairs sent; its allocator fails where the list given to
  \<open>test_world\<close> says \<open>False\<close>.\<close>

type_synonym test_ext = "bool list \<times> (nat \<times> u16) list"

definition test_env :: "test_ext collab" where
  "test_env =
     \<lparr>hsr_prp_get_node = (\<lambda>x port skb is_sup. (Some 1, x)),
      hsr_register_frame_in = (\<lambda>x n port seq. x),
      hsr_register_frame_out =
        (\<lambda>x port n seq. ((port_id port, seq) \<in> set (snd x), (fst x, (port_id port, seq) # snd x))),
      hsr_prp_handle_sup_frame = (\<lambda>x skb n port. x),
      hsr_addr_subst_source = (\<lambda>x n skb. skb),
      hsr_addr_subst_dest = (\<lambda>x n skb port. skb),
      hsr_prp_addr_is_self = (\<lambda>p a. a = [2, 0, 0, 0, 0, 1]),
      netif_rx = (\<lambda>x skb. (False, x)),
      dev_queue_xmit = (\<lambda>x skb. x),
      kmalloc = (\<lambda>x. case fst x of [] \<Rightarrow> (Some (\<lambda>_. 0), x)
                               | b # bs \<Rightarrow> (if b then Some (\<lambda>_. 0) else None, (bs, snd x))),
      dev_addr = (\<lambda>d. [2, 0, 0, 0, 0, of_nat d])\<rparr>"

definition port_master :: hsr_prp_port where
  "port_master = \<lparr>port_id = 0, ptype = HSR_PRP_PT_MASTER, dev = 0\<rparr>"

definition port_a :: hsr_prp_port where
  "port_a = \<lparr>port_id = 1, ptype = HSR_PRP_PT_SLAVE_A, dev = 1\<rparr>"

definition port_b :: hsr_prp_port where
  "port_b = \<lparr>port_id = 2, ptype = HSR_PRP_PT_SLAVE_B, dev = 2\<rparr>"

definition test_priv :: hsr_prp_priv where
  "test_priv = \<lparr>ports = [port_master, port_a, port_b],
                sup_multicast_addr = [0x01, 0x15, 0x4E, 0x00, 0x01, 0x00],
                prot_ver = 1, rx_offloaded = False, l2_fwd_offloaded = False,
                priv_sequence_nr = 5\<rparr>"

definition test_world :: "bool list \<Rightarrow> (32, test_ext) world" where
  "test_world allocs =
     \<lparr>priv = test_priv,
      stats = (\<lambda>_. \<lparr>rx_packets = 0, rx_bytes = 0, rx_dropped = 0, tx_dropped = 0, multicast = 0\<rparr>),
      ext = (allocs, []), events = []\<rparr>"

definition frame0 :: hsr_prp_frame_info where
  "frame0 = \<lparr>skb_std = None, skb_hsr = None, port_rcv = port_master, node_src = None,
             sequence_nr = 0, is_supervision = False, is_vlan = False,
             is_local_dest = False, is_local_exclusive = False\<rparr>"

definition mk_skb :: "u8 list \<Rightarrow> nat \<Rightarrow> sk_buff" where
  "mk_skb bytes pt = \<lparr>head = bytes, data = 0, mac_header = 0, protocol = 0, pkt_type = pt,
                      ip_summed = 0, csum_start = 0, skb_dev = 0\<rparr>"

text \<open>An untagged broadcast frame, an untagged frame to the node's own address, a
  VLAN frame, a frame with an HSR tag (sequence number 7) to the node's own address,
  and an HSR supervision frame.\<close>

definition skb_bcast :: sk_buff where
  "skb_bcast = mk_skb [0xFF, 0xFF, 0xFF, 0xFF, 0xFF, 0xFF, 2, 0, 0, 0, 0, 9,
                       0x08, 0x00, 1, 2, 3, 4] PACKET_BROADCAST"

definition skb_self :: sk_buff where
  "skb_self = mk_skb [2, 0, 0, 0, 0, 1, 2, 0, 0, 0, 0, 9,
                      0x08, 0x00, 1, 2, 3, 4] PACKET_OTHERHOST"

definition skb_vlan :: sk_buff where
  "skb_vlan = mk_skb [0xFF, 0xFF, 0xFF, 0xFF, 0xFF, 0xFF, 2, 0, 0, 0, 0, 9,
                      0x81, 0x00, 0, 5, 0x08, 0x00, 1, 2] PACKET_BROADCAST"

definition skb_tagged :: sk_buff where
  "skb_tagged = mk_skb [2, 0, 0, 0, 0, 1, 2, 0, 0, 0, 0, 9,
                        0x89, 0x2F, 0x00, 0x0A, 0, 7, 0x08, 0x00, 1, 2, 3, 4] PACKET_OTHERHOST"

definition skb_sup :: sk_buff where
  "skb_sup = mk_skb [0x01, 0x15, 0x4E, 0x00, 0x01, 0x00, 2, 0, 0, 0, 0, 9,
                     0x89, 0x2F, 0x00, 0x0E, 0, 3, 0x88, 0xFB,
                     0, 1, 0, 3, 23, 6, 2, 0, 0, 0, 0, 9] PACKET_MULTICAST"

text \<open>The tagged frame again, with four bytes of padding behind its payload: its
  payload-length field still says 10.\<close>

definition skb_padded :: sk_buff where
  "skb_padded = mk_skb [2, 0, 0, 0, 0, 1, 2, 0, 0, 0, 0, 9,
                        0x89, 0x2F, 0x00, 0x0A, 0, 7, 0x08, 0x00, 1, 2, 3, 4, 0, 0, 0, 0]
                  PACKET_OTHERHOST"

text \<open>The classifier's result for the broadcast frame and for the VLAN frame, received
  on slave A.\<close>

definition cls_bcast :: "bool list \<Rightarrow> (32, test_ext) world \<times> hsr_prp_frame_info option" where
  "cls_bcast allocs = hsr_prp_fill_frame_info test_env (test_world allocs) frame0 skb_bcast port_a"

definition cls_vlan :: "(32, test_ext) world \<times> hsr_prp_frame_info option" where
  "cls_vlan = hsr_prp_fill_frame_info test_env (test_world []) frame0 skb_vlan port_a"

section \<open>Properties\<close>

subsection \<open>Basic facts\<close>

lemma eth_p_distinct [simp]:
  "ETH_P_8021Q \<noteq> ETH_P_PRP" "ETH_P_8021Q \<noteq> ETH_P_HSR" "ETH_P_PRP \<noteq> ETH_P_HSR"
  "ETH_P_PRP \<noteq> ETH_P_8021Q" "ETH_P_HSR \<noteq> ETH_P_8021Q" "ETH_P_HSR \<noteq> ETH_P_PRP"
  by (simp_all add: ETH_P_8021Q_def ETH_P_PRP_def ETH_P_HSR_def)

lemma new_events_append [simp]: "events w' = events w @ es \<Longrightarrow> new_events w w' = es"
  by (simp add: new_events_def)

lemma check_local_dest_eq:
  "check_local_dest env p skb frame =
     (if hsr_prp_addr_is_self env p (h_dest skb)
      then (skb\<lparr>pkt_type := PACKET_HOST\<rparr>, frame\<lparr>is_local_exclusive := True, is_local_dest := True\<rparr>)
      else (skb, frame\<lparr>is_local_exclusive := False,
                       is_local_dest := (pkt_type skb = PACKET_HOST \<or> pkt_type skb = PACKET_MULTICAST
                                         \<or> pkt_type skb = PACKET_BROADCAST)\<rparr>))"
  by (simp add: check_local_dest_def)

lemma assign_sequence_nr_eq:
  "assign_sequence_nr w frame =
     (w\<lparr>priv := (priv w)\<lparr>priv_sequence_nr := priv_sequence_nr (priv w) + 1\<rparr>,
        events := events w @ [Ev_spin_lock_irqsave, Ev_read_sequence_nr (priv_sequence_nr (priv w)),
                              Ev_write_sequence_nr (priv_sequence_nr (priv w) + 1),
                              Ev_spin_unlock_irqrestore]\<rparr>,
      frame\<lparr>sequence_nr := priv_sequence_nr (priv w)\<rparr>)"
  by (simp add: assign_sequence_nr_def emit_def Let_def)

subsection \<open>The classifier\<close>

lemma fill_frame_info_flags_case:
  "(case hsr_prp_fill_frame_info env w frame skb port of
      (w', None) \<Rightarrow> True
    | (w', Some fr) \<Rightarrow>
        is_supervision fr = is_supervision_frame (priv w) skb
      \<and> is_vlan fr = (h_proto skb = ETH_P_8021Q)
      \<and> port_rcv fr = port
      \<and> is_local_exclusive fr = hsr_prp_addr_is_self env (priv w') (h_dest skb)
      \<and> (is_local_exclusive fr \<longrightarrow> is_local_dest fr)
      \<and> (is_local_exclusive fr \<longrightarrow>
           (\<forall>s. skb_std fr = Some s \<or> skb_hsr fr = Some s \<longrightarrow> pkt_type s = PACKET_HOST)))"
  by (cases "hsr_prp_get_node env (ext w) port skb (is_supervision_frame (priv w) skb)")
     (simp add: hsr_prp_fill_frame_info_def Let_def assign_sequence_nr_eq check_local_dest_eq emit_def)

lemma fill_frame_info_seq_case:
  "(case hsr_prp_fill_frame_info env w frame skb port of
      (w', None) \<Rightarrow> priv w' = priv w
    | (w', Some fr) \<Rightarrow>
        (if h_proto skb = ETH_P_PRP \<or> h_proto skb = ETH_P_HSR
         then sequence_nr fr = hsr_get_skb_sequence_nr skb \<and> priv w' = priv w
              \<and> filter is_seqnr_event (new_events w w') = []
         else sequence_nr fr = priv_sequence_nr (priv w)
              \<and> priv w' = (priv w)\<lparr>priv_sequence_nr := priv_sequence_nr (priv w) + 1\<rparr>
              \<and> filter is_seqnr_event (new_events w w') =
                  [Ev_spin_lock_irqsave, Ev_read_sequence_nr (priv_sequence_nr (priv w)),
                   Ev_write_sequence_nr (priv_sequence_nr (priv w) + 1), Ev_spin_unlock_irqrestore]))"
  by (cases "hsr_prp_get_node env (ext w) port skb (is_supervision_frame (priv w) skb)")
     (simp add: hsr_prp_fill_frame_info_def Let_def assign_sequence_nr_eq check_local_dest_eq emit_def
        new_events_def)

lemma fill_frame_info_fail_iff:
  "snd (hsr_prp_fill_frame_info env w frame skb port) = None \<longleftrightarrow>
     (is_supervision_frame (priv w) skb \<and> rx_offloaded (priv w) \<and> ptype port \<noteq> HSR_PRP_PT_MASTER)
     \<or> (\<not> rx_offloaded (priv w)
        \<and> fst (hsr_prp_get_node env (ext w) port skb (is_supervision_frame (priv w) skb)) = None)"
  by (cases "hsr_prp_get_node env (ext w) port skb (is_supervision_frame (priv w) skb)")
     (simp add: hsr_prp_fill_frame_info_def Let_def assign_sequence_nr_eq check_local_dest_eq emit_def)

text \<open>
  Claim C4. When the classifier accepts a frame: a frame whose ethertype is one of the
  two redundancy ethertypes gets the sequence number carried in its tag and leaves the
  node state, and so the shared counter, as it was, with no access to the counter; any
  other frame gets the counter's current value, the counter goes up by one (modulo
  \<open>2^16\<close>), and the read and the write lie between taking and releasing the
  counter's lock, each of which happens once.
\<close>

theorem fill_frame_info_sequence_nr:
  assumes "hsr_prp_fill_frame_info env w frame skb port = (w', Some fr)"
  shows "(h_proto skb = ETH_P_PRP \<or> h_proto skb = ETH_P_HSR \<longrightarrow>
            sequence_nr fr = hsr_get_skb_sequence_nr skb \<and> priv w' = priv w
            \<and> filter is_seqnr_event (new_events w w') = [])
       \<and> (\<not> (h_proto skb = ETH_P_PRP \<or> h_proto skb = ETH_P_HSR) \<longrightarrow>
            sequence_nr fr = priv_sequence_nr (priv w)
            \<and> priv_sequence_nr (priv w') = priv_sequence_nr (priv w) + 1
            \<and> filter is_seqnr_event (new_events w w') =
                [Ev_spin_lock_irqsave, Ev_read_sequence_nr (priv_sequence_nr (priv w)),
                 Ev_write_sequence_nr (priv_sequence_nr (priv w) + 1), Ev_spin_unlock_irqrestore])"
  using fill_frame_info_seq_case [where env=env and w=w and frame=frame and skb=skb and port=port]
    assms
  by (simp split: if_splits)

text \<open>With the counter at 5, the untagged broadcast frame gets sequence number 5 and
  the counter becomes 6; the tagged frame keeps its own 7 and the counter stays 5.\<close>

theorem fill_frame_info_sequence_nr_witness:
  "sequence_nr (the (snd (hsr_prp_fill_frame_info test_env (test_world []) frame0 skb_bcast port_a))) = 5
   \<and> priv_sequence_nr (priv (fst (hsr_prp_fill_frame_info test_env (test_world []) frame0 skb_bcast port_a))) = 6
   \<and> sequence_nr (the (snd (hsr_prp_fill_frame_info test_env (test_world []) frame0 skb_tagged port_a))) = 7
   \<and> priv_sequence_nr (priv (fst (hsr_prp_fill_frame_info test_env (test_world []) frame0 skb_tagged port_a))) = 5"
proof -
  let ?r = "hsr_prp_fill_frame_info test_env (test_world []) frame0 skb_bcast port_a"
  let ?t = "hsr_prp_fill_frame_info test_env (test_world []) frame0 skb_tagged port_a"
  have "snd ?r \<noteq> None" by code_simp
  then have r: "?r = (fst ?r, Some (the (snd ?r)))" by (cases ?r) auto
  have "snd ?t \<noteq> None" by code_simp
  then have t: "?t = (fst ?t, Some (the (snd ?t)))" by (cases ?t) auto
  have pr: "\<not> (h_proto skb_bcast = ETH_P_PRP \<or> h_proto skb_bcast = ETH_P_HSR)" by code_simp
  have pt: "h_proto skb_tagged = ETH_P_HSR" by code_simp
  have st: "hsr_get_skb_sequence_nr skb_tagged = 7" by code_simp
  have c: "priv_sequence_nr (priv (test_world [])) = 5" by code_simp
  show ?thesis
    using fill_frame_info_sequence_nr [OF r] fill_frame_info_sequence_nr [OF t] pr pt st c
    by simp
qed

text \<open>
  Claim C5. A frame is classified as supervision exactly when its destination is the
  node's supervision multicast address, its ethertype is one of the two redundancy
  ethertypes, for the HSR ethertype the tag's encapsulated protocol is the PRP
  ethertype, the TLV type (read behind the tag for HSR, behind the Ethernet header
  otherwise) is announce or life-check, and the TLV length is 12 or the size of the
  supervision payload. A frame that is not supervision is not failed on that account:
  the classifier rejects it only when the peer lookup does.
\<close>

theorem is_supervision_frame_iff:
  "(is_supervision_frame p skb \<longleftrightarrow>
      h_dest skb = sup_multicast_addr p
      \<and> (h_proto skb = ETH_P_PRP \<or> h_proto skb = ETH_P_HSR)
      \<and> (h_proto skb = ETH_P_HSR \<longrightarrow>
           get_be16 (head skb) (skb_mac_header skb + off_hsr_tag + off_tag_encap_proto) = ETH_P_PRP)
      \<and> (let tlv = skb_mac_header skb
                     + (if h_proto skb = ETH_P_HSR then off_v1_hsr_sup else off_v0_hsr_sup)
         in (head skb ! (tlv + off_sup_HSR_TLV_type) = HSR_TLV_ANNOUNCE
              \<or> head skb ! (tlv + off_sup_HSR_TLV_type) = HSR_TLV_LIFE_CHECK)
          \<and> (head skb ! (tlv + off_sup_HSR_TLV_length) = 12
              \<or> head skb ! (tlv + off_sup_HSR_TLV_length) = sizeof_hsr_prp_sup_payload)))
   \<and> (\<not> is_supervision_frame (priv w) skb \<longrightarrow>
        (snd (hsr_prp_fill_frame_info env w frame skb port) = None \<longleftrightarrow>
           \<not> rx_offloaded (priv w)
           \<and> fst (hsr_prp_get_node env (ext w) port skb False) = None))"
proof (intro conjI impI)
  show "is_supervision_frame p skb \<longleftrightarrow>
      h_dest skb = sup_multicast_addr p
      \<and> (h_proto skb = ETH_P_PRP \<or> h_proto skb = ETH_P_HSR)
      \<and> (h_proto skb = ETH_P_HSR \<longrightarrow>
           get_be16 (head skb) (skb_mac_header skb + off_hsr_tag + off_tag_encap_proto) = ETH_P_PRP)
      \<and> (let tlv = skb_mac_header skb
                     + (if h_proto skb = ETH_P_HSR then off_v1_hsr_sup else off_v0_hsr_sup)
         in (head skb ! (tlv + off_sup_HSR_TLV_type) = HSR_TLV_ANNOUNCE
              \<or> head skb ! (tlv + off_sup_HSR_TLV_type) = HSR_TLV_LIFE_CHECK)
          \<and> (head skb ! (tlv + off_sup_HSR_TLV_length) = 12
              \<or> head skb ! (tlv + off_sup_HSR_TLV_length) = sizeof_hsr_prp_sup_payload))"
    by (auto simp: is_supervision_frame_def Let_def)
next
  assume "\<not> is_supervision_frame (priv w) skb"
  then show "snd (hsr_prp_fill_frame_info env w frame skb port) = None \<longleftrightarrow>
           \<not> rx_offloaded (priv w)
           \<and> fst (hsr_prp_get_node env (ext w) port skb False) = None"
    by (simp add: fill_frame_info_fail_iff)
qed

text \<open>The HSR life-check frame of the concrete node is supervision; the broadcast
  frame is not, and is classified all the same.\<close>

theorem is_supervision_frame_iff_witness:
  "is_supervision_frame test_priv skb_sup
   \<and> \<not> is_supervision_frame (priv (test_world [])) skb_bcast
   \<and> snd (hsr_prp_fill_frame_info test_env (test_world []) frame0 skb_bcast port_a) \<noteq> None"
proof -
  have a: "h_dest skb_sup = sup_multicast_addr test_priv" by code_simp
  have b: "h_proto skb_sup = ETH_P_HSR" by code_simp
  have c: "get_be16 (head skb_sup) (skb_mac_header skb_sup + off_hsr_tag + off_tag_encap_proto)
             = ETH_P_PRP" by code_simp
  have d: "head skb_sup ! (skb_mac_header skb_sup + off_v1_hsr_sup + off_sup_HSR_TLV_type)
             = HSR_TLV_LIFE_CHECK" by code_simp
  have e: "head skb_sup ! (skb_mac_header skb_sup + off_v1_hsr_sup + off_sup_HSR_TLV_length)
             = sizeof_hsr_prp_sup_payload" by code_simp
  have f: "\<not> is_supervision_frame (priv (test_world [])) skb_bcast" by code_simp
  have g: "rx_offloaded (priv (test_world [])) = False" by code_simp
  have h: "fst (hsr_prp_get_node test_env (ext (test_world [])) port_a skb_bcast False) \<noteq> None"
    by code_simp
  show ?thesis
    using is_supervision_frame_iff [where p=test_priv and skb=skb_sup and w="test_world []"
        and env=test_env and frame=frame0 and port=port_a]
      is_supervision_frame_iff [where p=test_priv and skb=skb_bcast and w="test_world []"
        and env=test_env and frame=frame0 and port=port_a] a b c d e f g h
    by (simp add: Let_def)
qed

text \<open>
  Claim C8. A frame whose MAC header is not at the start of its data is dropped: the
  run completes, the transmit-drop counter of the receiving port's device is
  incremented, the buffer is freed, and nothing else happens (no local delivery, no
  egress, no change to the node state, the registry or any other counter). The
  counter is an \<^verbatim>\<open>unsigned long\<close>: the increment adds one modulo two to the power of
  its width, so that the largest value is followed by zero.
\<close>

theorem malformed_frame_dropped:
  fixes w :: "('l::len, 'x) world"
  assumes "skb_mac_header skb \<noteq> data skb"
  shows "hsr_prp_forward_skb env w ctx skb port =
           Inr (w\<lparr>stats := (stats w)(dev port :=
                     (stats w (dev port))\<lparr>tx_dropped := tx_dropped (stats w (dev port)) + 1\<rparr>),
                   events := events w @ [Ev_WARN, Ev_kfree_skb skb]\<rparr>)
       \<and> unat (tx_dropped (stats (final_world (hsr_prp_forward_skb env w ctx skb port)) (dev port)))
           = (unat (tx_dropped (stats w (dev port))) + 1) mod 2 ^ LENGTH('l)
       \<and> dispatches (new_events w (final_world (hsr_prp_forward_skb env w ctx skb port))) = []"
  using assms
  by (simp add: hsr_prp_forward_skb_def out_drop_def emit_def final_world_def dispatches_def
      map_filter_def unat_word_ariths)

text \<open>The broadcast frame with its MAC header two bytes into the buffer: one drop is
  counted on slave A's device, and the trace is the warning and the release. With the
  32-bit counter at its largest value, the count goes to zero.\<close>

theorem malformed_frame_dropped_witness:
  "tx_dropped (stats (final_world (hsr_prp_forward_skb test_env (test_world []) frame0
       (skb_bcast\<lparr>mac_header := 2\<rparr>) port_a)) (dev port_a)) = 1
   \<and> events (final_world (hsr_prp_forward_skb test_env (test_world []) frame0
       (skb_bcast\<lparr>mac_header := 2\<rparr>) port_a)) = [Ev_WARN, Ev_kfree_skb (skb_bcast\<lparr>mac_header := 2\<rparr>)]
   \<and> tx_dropped (stats (final_world (hsr_prp_forward_skb test_env
         ((test_world [])\<lparr>stats := (\<lambda>_. \<lparr>rx_packets = 0, rx_bytes = 0, rx_dropped = 0,
                                          tx_dropped = 0xFFFFFFFF, multicast = 0\<rparr>)\<rparr>)
         frame0 (skb_bcast\<lparr>mac_header := 2\<rparr>) port_a)) (dev port_a)) = 0"
proof -
  let ?full = "(test_world [])\<lparr>stats := (\<lambda>_. \<lparr>rx_packets = 0, rx_bytes = 0, rx_dropped = 0,
                                             tx_dropped = 0xFFFFFFFF, multicast = 0\<rparr>)\<rparr>"
  have h: "skb_mac_header (skb_bcast\<lparr>mac_header := 2\<rparr>) \<noteq> data (skb_bcast\<lparr>mac_header := 2\<rparr>)"
    by code_simp
  have s: "tx_dropped (stats (test_world []) (dev port_a)) = 0" "events (test_world []) = []"
    by code_simp+
  have 1: "tx_dropped (stats (final_world (hsr_prp_forward_skb test_env (test_world []) frame0
               (skb_bcast\<lparr>mac_header := 2\<rparr>) port_a)) (dev port_a)) = 1
         \<and> events (final_world (hsr_prp_forward_skb test_env (test_world []) frame0
               (skb_bcast\<lparr>mac_header := 2\<rparr>) port_a))
             = [Ev_WARN, Ev_kfree_skb (skb_bcast\<lparr>mac_header := 2\<rparr>)]"
    using malformed_frame_dropped [OF h, where env=test_env and w="test_world []"
        and ctx=frame0 and port=port_a] s
    by (simp add: final_world_def)
  have 2: "tx_dropped (stats (final_world (hsr_prp_forward_skb test_env ?full frame0
               (skb_bcast\<lparr>mac_header := 2\<rparr>) port_a)) (dev port_a)) = 0"
    using malformed_frame_dropped [OF h, where env=test_env and w="?full"
        and ctx=frame0 and port=port_a]
    by (simp add: final_world_def)
  show ?thesis using 1 2 by simp
qed

text \<open>
  Claim C10. After classification a frame marked exclusively local is also marked
  locally destined: the mark is set exactly when the destination is the node's own
  address, the buffer's packet type is then forced to \<^verbatim>\<open>PACKET_HOST\<close>, and the
  locality flag is computed from that. So the predicate "port is master and the frame
  is not locally destined" is false at every port for such a frame.
\<close>

theorem fill_frame_info_exclusive_local:
  assumes "hsr_prp_fill_frame_info env w frame skb port = (w', Some fr)"
  shows "is_local_exclusive fr = hsr_prp_addr_is_self env (priv w') (h_dest skb)
       \<and> (is_local_exclusive fr \<longrightarrow>
            is_local_dest fr
            \<and> (\<forall>s. skb_std fr = Some s \<or> skb_hsr fr = Some s \<longrightarrow> pkt_type s = PACKET_HOST)
            \<and> (\<forall>p. \<not> excl_master_not_local fr p))"
  using fill_frame_info_flags_case [where env=env and w=w and frame=frame and skb=skb and port=port]
    assms
  by (simp add: excl_master_not_local_def)

text \<open>The frame to the node's own address, received on slave A with packet type
  \<^verbatim>\<open>PACKET_OTHERHOST\<close>, comes out exclusively local and locally destined.\<close>

theorem fill_frame_info_exclusive_local_witness:
  "is_local_exclusive (the (snd (hsr_prp_fill_frame_info test_env (test_world []) frame0 skb_self port_a)))
   \<and> is_local_dest (the (snd (hsr_prp_fill_frame_info test_env (test_world []) frame0 skb_self port_a)))
   \<and> \<not> excl_master_not_local
         (the (snd (hsr_prp_fill_frame_info test_env (test_world []) frame0 skb_self port_a)))
         port_master"
proof -
  let ?r = "hsr_prp_fill_frame_info test_env (test_world []) frame0 skb_self port_a"
  have "snd ?r \<noteq> None" by code_simp
  then have r: "?r = (fst ?r, Some (the (snd ?r)))" by (cases ?r) auto
  have s: "hsr_prp_addr_is_self test_env (priv (fst ?r)) (h_dest skb_self)" by code_simp
  show ?thesis
    using fill_frame_info_exclusive_local [OF r] s by simp
qed

subsection \<open>The tag codec\<close>

lemma be16_join: "push_bit 8 (ucast (ucast (drop_bit 8 v) :: u8)) OR ucast (ucast v :: u8) = (v :: u16)"
  by (rule bit_word_eqI) (auto simp: bit_simps)

lemma be16_hi: "(ucast (drop_bit 8 (push_bit 8 (ucast (a :: u8)) OR ucast (b :: u8) :: u16)) :: u8) = a"
  by (rule bit_word_eqI) (auto simp: bit_simps dest: bit_imp_le_length)

lemma be16_lo: "(ucast (push_bit 8 (ucast (a :: u8)) OR ucast (b :: u8) :: u16) :: u8) = b"
  by (rule bit_word_eqI) (auto simp: bit_simps)

lemma path_size_word:
  "((((x AND 0x0FFF) OR push_bit 12 lane) AND 0xF000) OR (sz AND 0x0FFF)) = (push_bit 12 lane OR (sz AND 0x0FFF) :: u16)"
proof -
  have m1: "(0x0FFF :: u16) = mask 12" by (simp add: mask_eq_exp_minus_1)
  have m2: "(0xF000 :: u16) = NOT (mask 12)" by (simp add: mask_eq_exp_minus_1)
  show ?thesis unfolding m1 m2
    by (rule bit_word_eqI) (auto simp: bit_simps)
qed


lemma length_put_be16 [simp]: "length (put_be16 m a v) = length m"
  by (simp add: put_be16_def)

lemma nth_put_be16:
  "a + 1 < length m \<Longrightarrow>
   put_be16 m a v ! i = (if i = a then ucast (drop_bit 8 v) else if i = a + 1 then ucast v else m ! i)"
  by (simp add: put_be16_def nth_list_update)

lemma get_put_be16_same: "a + 1 < length m \<Longrightarrow> get_be16 (put_be16 m a v) a = v"
  by (simp add: get_be16_def nth_put_be16 be16_join)

lemma memread_take_drop: "a + n \<le> length m \<Longrightarrow> memread m a n = take n (drop a m)"
  unfolding memread_def
  by (rule nth_equalityI) (auto simp: nth_append)

lemma put_be16_append:
  "length P \<le> a \<Longrightarrow> put_be16 (P @ X) a v = P @ put_be16 X (a - length P) v"
  by (auto simp: put_be16_def list_update_append Suc_diff_le)

lemma get_be16_append:
  "length P \<le> a \<Longrightarrow> get_be16 (P @ X) a = get_be16 X (a - length P)"
  by (auto simp: get_be16_def nth_append Suc_diff_le)

lemma memmove_shape:
  assumes "length J = d + 6" "mv \<le> length F" "6 \<le> mv"
  shows "memwrite (J @ F) d (memread (J @ F) (d + 6) mv) = take d J @ take mv F @ drop (mv - 6) F"
proof -
  have "memread (J @ F) (d + 6) mv = take mv F"
    using assms by (simp add: memread_take_drop)
  then show ?thesis
    using assms by (simp add: memwrite_def)
qed

lemma get_be16_hi: "(ucast (drop_bit 8 (get_be16 m a)) :: u8) = m ! a"
  unfolding get_be16_def by (rule be16_hi)

lemma get_be16_lo: "(ucast (get_be16 m a) :: u8) = m ! (a + 1)"
  unfolding get_be16_def by (rule be16_lo)

lemma tagged_layout_hi:
  assumes "14 \<le> length F" "20 \<le> i"
  shows "tagged_layout F E lane sz seq ! i = F ! (i - 6)"
proof -
  define P where "P = take 12 F @ be16_bytes E @ be16_bytes (push_bit 12 lane OR (sz AND 0x0FFF))
       @ be16_bytes seq @ take 2 (drop 12 F)"
  have lp: "length P = 20" using assms by (simp add: P_def be16_bytes_def)
  have "tagged_layout F E lane sz seq = P @ drop 14 F"
    by (simp add: tagged_layout_def P_def)
  then have "tagged_layout F E lane sz seq ! i = drop 14 F ! (i - 20)"
    using lp assms by (simp add: nth_append)
  also have "\<dots> = F ! (14 + (i - 20))" using assms by simp
  also have "14 + (i - 20) = i - 6" using assms by simp
  finally show ?thesis .
qed

lemma fill_tag_bytes:
  fixes F :: "u8 list" and lane sz seq E :: u16 and mv :: nat
  assumes L: "mv \<le> length F" and mv14: "mv = 14 \<or> mv = 18"
  defines "X \<equiv> take mv F @ drop (mv - 6) F"
  defines "m1 \<equiv> set_hsr_tag_path X 14 lane"
  defines "m2 \<equiv> set_hsr_tag_LSDU_size m1 14 sz"
  defines "m3 \<equiv> put_be16 m2 16 seq"
  defines "m4 \<equiv> put_be16 m3 18 (get_be16 m3 12)"
  shows "put_be16 m4 12 E = tagged_layout F E lane sz seq"
proof (rule nth_equalityI)
  have lenX: "length X = length F + 6" using L mv14 by (auto simp: X_def)
  have len: "length m1 = length X" "length m2 = length X" "length m3 = length X" "length m4 = length X"
    by (simp_all add: m1_def m2_def m3_def m4_def set_hsr_tag_path_def set_hsr_tag_LSDU_size_def)
  have F14: "14 \<le> length F" using L mv14 by auto
  show "length (put_be16 m4 12 E) = length (tagged_layout F E lane sz seq)"
    using lenX len F14 by (simp add: tagged_layout_def be16_bytes_def)
  have w: "get_be16 m2 14 = push_bit 12 lane OR (sz AND 0x0FFF)"
    using lenX len F14
    by (simp add: m2_def m1_def set_hsr_tag_LSDU_size_def set_hsr_tag_path_def
        off_tag_path_and_LSDU_size_def get_put_be16_same path_size_word)
  have m2n: "\<And>i. i \<noteq> 14 \<Longrightarrow> i \<noteq> 15 \<Longrightarrow> m2 ! i = X ! i"
    using lenX len F14
    by (simp add: m2_def m1_def set_hsr_tag_LSDU_size_def set_hsr_tag_path_def
        off_tag_path_and_LSDU_size_def nth_put_be16)
  have m2_14: "m2 ! 14 = ucast (drop_bit 8 (push_bit 12 lane OR (sz AND 0x0FFF) :: u16))"
    and m2_15: "m2 ! 15 = ucast (push_bit 12 lane OR (sz AND 0x0FFF) :: u16)"
    using lenX len F14 unfolding m2_def set_hsr_tag_LSDU_size_def off_tag_path_and_LSDU_size_def
    by (simp_all add: nth_put_be16 w [unfolded m2_def set_hsr_tag_LSDU_size_def off_tag_path_and_LSDU_size_def, simplified]
        m1_def set_hsr_tag_path_def off_tag_path_and_LSDU_size_def get_put_be16_same path_size_word)
  have X12: "X ! 12 = F ! 12" "X ! 13 = F ! 13" using L mv14 by (auto simp: X_def nth_append)
  have Xlo: "\<And>i. i < 12 \<Longrightarrow> X ! i = F ! i" using L mv14 by (auto simp: X_def nth_append)
  have Xhi: "\<And>i. 20 \<le> i \<Longrightarrow> i < length F + 6 \<Longrightarrow> X ! i = F ! (i - 6)"
    using L mv14 by (auto simp: X_def nth_append)
  have g: "get_be16 m3 12 = get_be16 F 12"
    using lenX len F14 by (simp add: get_be16_def m3_def nth_put_be16 m2n X12)
  fix i assume "i < length (put_be16 m4 12 E)"
  then have i: "i < length F + 6" using lenX len by simp
  consider "i < 12" | "i = 12" | "i = 13" | "i = 14" | "i = 15" | "i = 16" | "i = 17"
    | "i = 18" | "i = 19" | "20 \<le> i" by linarith
  then show "put_be16 m4 12 E ! i = tagged_layout F E lane sz seq ! i"
  proof cases
    case 1
    then show ?thesis using lenX len F14 i
      by (simp add: nth_put_be16 m4_def m3_def m2n Xlo tagged_layout_def nth_append)
  next
    case 10
    then show ?thesis using lenX len F14 i
      by (simp add: nth_put_be16 m4_def m3_def m2n Xhi tagged_layout_hi)
  qed (use lenX len F14 in \<open>simp_all add: nth_put_be16 m4_def m3_def m2n m2_14 m2_15 g
         X12 tagged_layout_def nth_append be16_bytes_def get_be16_hi get_be16_lo\<close>)
qed

lemma set_hsr_tag_path_append:
  "length P \<le> a \<Longrightarrow> set_hsr_tag_path (P @ X) a v = P @ set_hsr_tag_path X (a - length P) v"
  by (simp add: set_hsr_tag_path_def put_be16_append get_be16_append off_tag_path_and_LSDU_size_def)

lemma set_hsr_tag_LSDU_size_append:
  "length P \<le> a \<Longrightarrow> set_hsr_tag_LSDU_size (P @ X) a v = P @ set_hsr_tag_LSDU_size X (a - length P) v"
  by (simp add: set_hsr_tag_LSDU_size_def put_be16_append get_be16_append off_tag_path_and_LSDU_size_def)

lemma hsr_fill_tag_eq:
  fixes skb :: sk_buff
  assumes hd: "head skb = P @ take mv F @ drop (mv - 6) F"
    and P: "mac_header skb = length P"
    and L: "mv \<le> length F" and mv14: "mv = 14 \<or> mv = 18"
  shows "hsr_fill_tag skb fa port ver =
           skb\<lparr>head := P @ tagged_layout F (if ver \<noteq> 0 then ETH_P_HSR else ETH_P_PRP)
                             (if ptype port = HSR_PRP_PT_SLAVE_A then 0 else 1)
                             (if is_vlan fa then of_nat (skb_len skb) - 14 - 4 else of_nat (skb_len skb) - 14)
                             (sequence_nr fa)\<rparr>"
  unfolding hsr_fill_tag_def Let_def skb_mac_header_def off_hsr_tag_def off_tag_sequence_nr_def
    off_tag_encap_proto_def off_h_proto_def hd P
  by (simp add: set_hsr_tag_path_append set_hsr_tag_LSDU_size_append put_be16_append
      get_be16_append fill_tag_bytes [OF L mv14])

lemma length_skb_data [simp]: "length (skb_data s) = skb_len s"
  by (simp add: skb_data_def skb_len_def)

lemma create_tagged_skb_eq:
  assumes len: "(if is_vlan fa then ETH_HLEN + VLAN_HLEN else ETH_HLEN) \<le> skb_len f"
  shows "create_tagged_skb (Some junk) (Some f) fa port ver =
     Inr (Some (f\<lparr>head := map junk [0 ..< data f]
                      @ tagged_layout (skb_data f) (if ver \<noteq> 0 then ETH_P_HSR else ETH_P_PRP)
                          (if ptype port = HSR_PRP_PT_SLAVE_A then 0 else 1)
                          (if is_vlan fa then of_nat (skb_len f + 6) - 14 - 4
                           else of_nat (skb_len f + 6) - 14)
                          (sequence_nr fa),
                  mac_header := data f,
                  csum_start := (if ip_summed f = CHECKSUM_PARTIAL then csum_start f + 6
                                 else csum_start f)\<rparr>))"
proof -
  define mv where "mv = (if is_vlan fa then ETH_HLEN + VLAN_HLEN else ETH_HLEN)"
  define J where "J = map junk [0 ..< data f + 6]"
  define F where "F = skb_data f"
  define P where "P = map junk [0 ..< data f]"
  have mv14: "mv = 14 \<or> mv = 18" by (simp add: mv_def ETH_HLEN_def VLAN_HLEN_def)
  have L: "mv \<le> length F" using len by (simp add: mv_def F_def)
  have lenF: "length F = skb_len f" by (simp add: F_def)
  have mm: "memwrite (J @ F) (data f) (memread (J @ F) (data f + 6) mv)
              = P @ take mv F @ drop (mv - 6) F"
    using memmove_shape [of J "data f" mv F] L mv14
    by (auto simp: J_def P_def take_map)
  define skb5 where "skb5 = f\<lparr>csum_start := (if ip_summed f = CHECKSUM_PARTIAL then csum_start f + 6
                                    else csum_start f),
                     head := P @ take mv F @ drop (mv - 6) F, mac_header := data f\<rparr>"
  have l5: "skb_len skb5 = skb_len f + 6"
    using L mv14 lenF by (auto simp: skb5_def skb_len_def P_def)
  have ft: "hsr_fill_tag skb5 fa port ver =
           skb5\<lparr>head := P @ tagged_layout F (if ver \<noteq> 0 then ETH_P_HSR else ETH_P_PRP)
                             (if ptype port = HSR_PRP_PT_SLAVE_A then 0 else 1)
                             (if is_vlan fa then of_nat (skb_len skb5) - 14 - 4 else of_nat (skb_len skb5) - 14)
                             (sequence_nr fa)\<rparr>"
    by (rule hsr_fill_tag_eq [OF _ _ L mv14]) (simp_all add: skb5_def P_def)
  have step: "create_tagged_skb (Some junk) (Some f) fa port ver = Inr (Some (hsr_fill_tag skb5 fa port ver))"
    using mm
    by (simp add: create_tagged_skb_def pskb_copy_def skb_reset_mac_header_def skb_push_def
        skb_headroom_def skb_mac_header_def HSR_PRP_HLEN_def Let_def skb5_def mv_def J_def F_def
        skb_data_def)
  show ?thesis
    unfolding step ft l5 by (simp add: skb5_def F_def P_def)
qed

lemma stripped_layout_nth:
  assumes "18 \<le> length T" "12 \<le> i" "i + 6 < length T"
  shows "stripped_layout T ! i = T ! (i + 6)"
proof -
  have "stripped_layout T ! i = drop 18 T ! (i - 12)"
    using assms by (simp add: stripped_layout_def nth_append)
  also have "\<dots> = T ! (18 + (i - 12))" using assms by simp
  also have "18 + (i - 12) = i + 6" using assms by simp
  finally show ?thesis .
qed

lemma get_be16_stripped_layout:
  assumes "20 \<le> length T"
  shows "get_be16 (stripped_layout T) 12 = get_be16 T 18"
  using assms stripped_layout_nth [of T 12] stripped_layout_nth [of T 13]
  by (simp add: get_be16_def)

lemma create_stripped_skb_eq:
  assumes mac: "mac_header t = data t"
    and len: "ETH_HLEN + HSR_PRP_HLEN \<le> skb_len t"
    and nv: "\<not> is_vlan fs"
  shows "create_stripped_skb (Some junk) (Some t) fs =
     Inr (Some t,
          Some (t\<lparr>csum_start := (if ip_summed t = CHECKSUM_PARTIAL then csum_start t - 6
                                 else csum_start t),
                  head := map junk [0 ..< data t] @ stripped_layout (skb_data t),
                  protocol := get_be16 (skb_data t) 18\<rparr>))"
proof -
  define T where "T = skb_data t"
  define P where "P = map junk [0 ..< data t]"
  have lT: "20 \<le> length T" using len by (simp add: T_def ETH_HLEN_def HSR_PRP_HLEN_def)
  have lh: "data t + 20 \<le> length (head t)"
    using len by (simp add: skb_len_def ETH_HLEN_def HSR_PRP_HLEN_def)
  have rd: "memread (head t) (data t) 12 = take 12 T"
    using lh by (simp add: memread_take_drop T_def skb_data_def)
  have d6: "drop (data t + 6) (head t) = drop 6 T"
    by (simp add: T_def skb_data_def add.commute)
  have wr: "memwrite (P @ drop 6 T) (data t) (take 12 T) = P @ stripped_layout T"
    using lT by (simp add: memwrite_def P_def stripped_layout_def)
  have pr: "get_be16 (P @ stripped_layout T) (data t + 12) = get_be16 T 18"
    using get_be16_append [of P "data t + 12" "stripped_layout T"] get_be16_stripped_layout [OF lT]
    by (simp add: P_def)
  have pull: "skb_pull t 6 = t\<lparr>data := data t + 6\<rparr>"
    using len by (simp add: skb_pull_def HSR_PRP_HLEN_def ETH_HLEN_def)
  show ?thesis
    using rd d6 wr pr nv mac
    by (simp add: create_stripped_skb_def pull pskb_copy_def skb_push_def skb_headroom_def
        skb_reset_mac_header_def skb_mac_header_def h_proto_def off_h_proto_def Let_def
        HSR_PRP_HLEN_def ETH_ALEN_def T_def P_def)
qed

lemma length_be16_bytes [simp]: "length (be16_bytes v) = 2"
  by (simp add: be16_bytes_def)

lemma get_be16_be16_bytes [simp]: "get_be16 (be16_bytes v @ R) 0 = v"
  by (simp add: get_be16_def be16_bytes_def be16_join)

lemma take2_drop12: "take 2 (drop 12 F) @ drop 14 F = drop 12 (F :: u8 list)"
  using append_take_drop_id [of 2 "drop 12 F"] by simp

lemma get_be16_drop: "n + a + 1 < length F \<Longrightarrow> get_be16 (drop n F) a = get_be16 F (n + a)"
  by (simp add: get_be16_def add.assoc)

lemma tagged_layout_fields:
  assumes "14 \<le> length F"
  shows "get_be16 (tagged_layout F E lane sz seq) 12 = E"
    and "get_be16 (tagged_layout F E lane sz seq) 14 = push_bit 12 lane OR (sz AND 0x0FFF)"
    and "get_be16 (tagged_layout F E lane sz seq) 16 = seq"
    and "get_be16 (tagged_layout F E lane sz seq) 18 = get_be16 F 12"
    and "take 12 (tagged_layout F E lane sz seq) = take 12 F"
    and "drop 20 (tagged_layout F E lane sz seq) = drop 14 F"
    and "length (tagged_layout F E lane sz seq) = length F + 6"
proof -
  show "get_be16 (tagged_layout F E lane sz seq) 12 = E"
    using assms by (simp add: tagged_layout_def get_be16_append)
  show "get_be16 (tagged_layout F E lane sz seq) 14 = push_bit 12 lane OR (sz AND 0x0FFF)"
    using assms by (simp add: tagged_layout_def get_be16_append)
  show "get_be16 (tagged_layout F E lane sz seq) 16 = seq"
    using assms by (simp add: tagged_layout_def get_be16_append)
  have "get_be16 (tagged_layout F E lane sz seq) 18 = get_be16 (take 2 (drop 12 F) @ drop 14 F) 0"
    using assms by (simp add: tagged_layout_def get_be16_append)
  also have "\<dots> = get_be16 F 12"
    using assms by (simp add: take2_drop12 get_be16_def)
  finally show "get_be16 (tagged_layout F E lane sz seq) 18 = get_be16 F 12" .
  show "take 12 (tagged_layout F E lane sz seq) = take 12 F"
    using assms by (simp add: tagged_layout_def)
  show "drop 20 (tagged_layout F E lane sz seq) = drop 14 F"
    using assms by (simp add: tagged_layout_def)
  show "length (tagged_layout F E lane sz seq) = length F + 6"
    using assms by (simp add: tagged_layout_def)
qed

lemma stripped_tagged_layout:
  assumes "14 \<le> length F"
  shows "stripped_layout (tagged_layout F E lane sz seq) = F"
proof -
  have "stripped_layout (tagged_layout F E lane sz seq) = take 12 F @ take 2 (drop 12 F) @ drop 14 F"
    using assms by (simp add: stripped_layout_def tagged_layout_def)
  also have "take 2 (drop 12 F) @ drop 14 F = drop 12 F"
    by (rule take2_drop12)
  finally show ?thesis by simp
qed

lemma path_lane: "lane = 0 \<or> lane = 1 \<Longrightarrow> drop_bit 12 (push_bit 12 lane OR (sz AND 0x0FFF) :: u16) = lane"
proof -
  have m1: "(0x0FFF :: u16) = mask 12" by (simp add: mask_eq_exp_minus_1)
  assume "lane = 0 \<or> lane = 1"
  then show ?thesis unfolding m1
    by (auto intro!: bit_word_eqI simp: bit_simps)
qed

lemma size_lane: "(push_bit 12 lane OR (sz AND 0x0FFF) :: u16) AND 0x0FFF = sz AND 0x0FFF"
proof -
  have m1: "(0x0FFF :: u16) = mask 12" by (simp add: mask_eq_exp_minus_1)
  show ?thesis unfolding m1
    by (rule bit_word_eqI) (auto simp: bit_simps)
qed

lemma tag_then_strip:
  assumes nv: "\<not> is_vlan fs"
    and len: "(if is_vlan fa then ETH_HLEN + VLAN_HLEN else ETH_HLEN) \<le> skb_len f"
  shows "\<exists>t s. create_tagged_skb (Some j1) (Some f) fa port ver = Inr (Some t)
            \<and> h_proto t = (if ver \<noteq> 0 then ETH_P_HSR else ETH_P_PRP)
            \<and> create_stripped_skb (Some j2) (Some t) fs = Inr (Some t, Some s)
            \<and> skb_data s = skb_data f \<and> data s = data f \<and> mac_header s = data s"
proof -
  define E where "E = (if ver \<noteq> 0 then ETH_P_HSR else ETH_P_PRP)"
  define lane where "lane = (if ptype port = HSR_PRP_PT_SLAVE_A then 0 else 1 :: u16)"
  define sz where "sz = (if is_vlan fa then of_nat (skb_len f + 6) - 14 - 4
                         else of_nat (skb_len f + 6) - 14 :: u16)"
  define TL where "TL = tagged_layout (skb_data f) E lane sz (sequence_nr fa)"
  define t where "t = f\<lparr>head := map j1 [0 ..< data f] @ TL, mac_header := data f,
                        csum_start := (if ip_summed f = CHECKSUM_PARTIAL then csum_start f + 6
                                       else csum_start f)\<rparr>"
  have F14: "14 \<le> length (skb_data f)"
    using len by (simp add: ETH_HLEN_def VLAN_HLEN_def split: if_splits)
  have tg: "create_tagged_skb (Some j1) (Some f) fa port ver = Inr (Some t)"
    using create_tagged_skb_eq [OF len, of j1 port ver]
    by (simp add: t_def TL_def E_def lane_def sz_def)
  have dt: "skb_data t = TL" by (simp add: skb_data_def t_def)
  have lt: "ETH_HLEN + HSR_PRP_HLEN \<le> skb_len t"
    using F14 tagged_layout_fields(7) [OF F14, of E lane sz "sequence_nr fa"]
    by (simp add: skb_len_def t_def TL_def ETH_HLEN_def HSR_PRP_HLEN_def)
  have mt: "mac_header t = data t" by (simp add: t_def)
  have pt: "h_proto t = E"
    using tagged_layout_fields(1) [OF F14, of E lane sz "sequence_nr fa"]
    by (simp add: h_proto_def skb_mac_header_def off_h_proto_def t_def get_be16_append TL_def)
  define s where "s = t\<lparr>csum_start := (if ip_summed t = CHECKSUM_PARTIAL then csum_start t - 6
                                 else csum_start t),
                  head := map j2 [0 ..< data t] @ stripped_layout (skb_data t),
                  protocol := get_be16 (skb_data t) 18\<rparr>"
  have st: "create_stripped_skb (Some j2) (Some t) fs = Inr (Some t, Some s)"
    using create_stripped_skb_eq [OF mt lt nv, of j2] by (simp add: s_def)
  have ds: "skb_data s = skb_data f"
    using stripped_tagged_layout [OF F14, of E lane sz "sequence_nr fa"]
    by (simp add: skb_data_def s_def dt [unfolded skb_data_def] TL_def t_def)
  have "data s = data f" "mac_header s = data s" by (simp_all add: s_def t_def)
  with tg pt st ds show ?thesis unfolding E_def by blast
qed

lemma strip_then_tag:
  assumes nv: "\<not> is_vlan fs"
    and mac: "mac_header tg = data tg"
    and len: "ETH_HLEN + HSR_PRP_HLEN + (if is_vlan fa then VLAN_HLEN else 0) \<le> skb_len tg"
  shows "\<exists>s t'. create_stripped_skb (Some j1) (Some tg) fs = Inr (Some tg, Some s)
            \<and> create_tagged_skb (Some j2) (Some s) fa port ver = Inr (Some t')
            \<and> get_hsr_tag_path t' = (if ptype port = HSR_PRP_PT_SLAVE_A then 0 else 1)
            \<and> hsr_get_skb_sequence_nr t' = sequence_nr fa
            \<and> h_proto t' = (if ver \<noteq> 0 then ETH_P_HSR else ETH_P_PRP)
            \<and> hsr_tag_encap_proto t' = hsr_tag_encap_proto tg
            \<and> get_hsr_tag_LSDU_size t' =
                (of_nat (skb_len tg) - 14 - (if is_vlan fa then 4 else 0)) AND 0x0FFF
            \<and> take 12 (skb_data t') = take 12 (skb_data tg)
            \<and> drop 20 (skb_data t') = drop 20 (skb_data tg)"
proof -
  define T where "T = skb_data tg"
  define SL where "SL = stripped_layout T"
  define E where "E = (if ver \<noteq> 0 then ETH_P_HSR else ETH_P_PRP)"
  define lane where "lane = (if ptype port = HSR_PRP_PT_SLAVE_A then 0 else 1 :: u16)"
  define s where "s = tg\<lparr>csum_start := (if ip_summed tg = CHECKSUM_PARTIAL then csum_start tg - 6
                                 else csum_start tg),
                  head := map j1 [0 ..< data tg] @ SL,
                  protocol := get_be16 T 18\<rparr>"
  define sz where "sz = (if is_vlan fa then of_nat (skb_len s + 6) - 14 - 4
                         else of_nat (skb_len s + 6) - 14 :: u16)"
  define TL where "TL = tagged_layout SL E lane sz (sequence_nr fa)"
  define t' where "t' = s\<lparr>head := map j2 [0 ..< data s] @ TL, mac_header := data s,
                        csum_start := (if ip_summed s = CHECKSUM_PARTIAL then csum_start s + 6
                                       else csum_start s)\<rparr>"
  have len20: "ETH_HLEN + HSR_PRP_HLEN \<le> skb_len tg" using len by simp
  have lT: "20 \<le> length T" "length T = skb_len tg"
    using len by (simp_all add: T_def ETH_HLEN_def HSR_PRP_HLEN_def)
  have lSL: "length SL + 6 = length T" using lT by (simp add: SL_def stripped_layout_def)
  have st: "create_stripped_skb (Some j1) (Some tg) fs = Inr (Some tg, Some s)"
    using create_stripped_skb_eq [OF mac len20 nv, of j1] by (simp add: s_def SL_def T_def)
  have ds: "skb_data s = SL" "data s = data tg" by (simp_all add: skb_data_def s_def)
  have ls: "skb_len s + 6 = skb_len tg"
    using lSL lT length_skb_data [of s] by (simp add: ds)
  have len_s: "(if is_vlan fa then ETH_HLEN + VLAN_HLEN else ETH_HLEN) \<le> skb_len s"
    using len ls by (simp add: ETH_HLEN_def HSR_PRP_HLEN_def VLAN_HLEN_def split: if_splits)
  have S14: "14 \<le> length SL"
    using lSL lT by simp
  have tt: "create_tagged_skb (Some j2) (Some s) fa port ver = Inr (Some t')"
    using create_tagged_skb_eq [OF len_s, of j2 port ver]
    by (simp add: t'_def TL_def E_def lane_def sz_def ds)
  note fl = tagged_layout_fields [OF S14, of E lane sz "sequence_nr fa", folded TL_def]
  have hd: "head t' = map j2 [0 ..< data tg] @ TL" "mac_header t' = data tg" "data t' = data tg"
    by (simp_all add: t'_def ds)
  have ln: "lane = 0 \<or> lane = 1" by (simp add: lane_def)
  have f1: "get_hsr_tag_path t' = lane"
    using fl(2) path_lane [OF ln, of sz]
    by (simp add: get_hsr_tag_path_def skb_mac_header_def hd get_be16_append off_hsr_tag_def
        off_tag_path_and_LSDU_size_def)
  have f2: "hsr_get_skb_sequence_nr t' = sequence_nr fa"
    using fl(3)
    by (simp add: hsr_get_skb_sequence_nr_def skb_mac_header_def hd get_be16_append off_hsr_tag_def
        off_tag_sequence_nr_def)
  have f3: "h_proto t' = E"
    using fl(1) by (simp add: h_proto_def skb_mac_header_def hd get_be16_append off_h_proto_def)
  have e_tg: "hsr_tag_encap_proto tg = get_be16 T 18"
    using lT mac length_skb_data [of tg]
    by (simp add: hsr_tag_encap_proto_def skb_mac_header_def off_hsr_tag_def off_tag_encap_proto_def
        T_def skb_data_def get_be16_def add.commute skb_len_def)
  have f4: "hsr_tag_encap_proto t' = hsr_tag_encap_proto tg"
    using fl(4) get_be16_stripped_layout [OF lT(1)]
    by (simp add: hsr_tag_encap_proto_def [of t'] skb_mac_header_def hd get_be16_append off_hsr_tag_def
        off_tag_encap_proto_def e_tg SL_def)
  have f5: "get_hsr_tag_LSDU_size t' = sz AND 0x0FFF"
    using fl(2) size_lane [of lane sz]
    by (simp add: get_hsr_tag_LSDU_size_def skb_mac_header_def hd get_be16_append off_hsr_tag_def
        off_tag_path_and_LSDU_size_def)
  have szv: "sz = of_nat (skb_len tg) - 14 - (if is_vlan fa then 4 else 0)"
    by (simp add: sz_def ls)
  have dt': "skb_data t' = TL" by (simp add: skb_data_def hd)
  have f6: "take 12 (skb_data t') = take 12 (skb_data tg)"
    using fl(5) lT by (simp add: dt' SL_def stripped_layout_def T_def)
  have f7: "drop 20 (skb_data t') = drop 20 (skb_data tg)"
    using fl(6) lT by (simp add: dt' SL_def stripped_layout_def T_def)
  from st tt f1 f2 f3 f4 f5 f6 f7 show ?thesis
    unfolding szv E_def lane_def by blast
qed

text \<open>
  Claim C9. Stripping leaves its input as it was: for every input buffer that holds
  at least the six bytes of the tag (so for every tagged frame), whether or not the
  allocation succeeds, the call returns with the input's buffer, offsets and header
  fields exactly as before. The pull and the push around the copy cancel.
\<close>

theorem create_stripped_skb_input_unchanged:
  assumes "HSR_PRP_HLEN \<le> skb_len skb_in"
  shows "\<exists>res. create_stripped_skb a (Some skb_in) frame = Inr (Some skb_in, res)"
  using assms
  by (cases a)
     (simp_all add: create_stripped_skb_def skb_pull_def skb_push_def pskb_copy_def Let_def)

text \<open>The tagged frame is returned as it was, with the allocation succeeding and with
  it failing.\<close>

theorem create_stripped_skb_input_unchanged_witness:
  "(\<exists>res. create_stripped_skb (Some (\<lambda>_. 0)) (Some skb_tagged) frame0 = Inr (Some skb_tagged, res))
   \<and> (\<exists>res. create_stripped_skb None (Some skb_tagged) frame0 = Inr (Some skb_tagged, res))"
proof -
  have h: "HSR_PRP_HLEN \<le> skb_len skb_tagged" by code_simp
  show ?thesis
    using create_stripped_skb_input_unchanged [OF h] by blast
qed

text \<open>
  Claim C2, as amended. Stripping is done with the VLAN flag clear, as the classifier
  sets it for a frame carrying a redundancy ethertype. For every untagged frame \<open>f\<close>
  holding at least its Ethernet header (and the VLAN header when flagged), tagging
  succeeds, the result carries the redundancy ethertype, and stripping it gives back
  the bytes of \<open>f\<close> (addresses, ethertype, payload) at the same offset. For every tagged
  frame \<open>tg\<close> with its MAC header at the start of the data, tagging the stripped frame
  gives the lane of the port, the sequence number of the context, the ethertype of the
  protocol version, the encapsulated protocol of \<open>tg\<close>, and the addressing and payload
  bytes of \<open>tg\<close>; the payload-length field is computed anew from the frame length
  (length minus 14, minus 4 when flagged VLAN, low twelve bits), so it is the one
  \<open>tg\<close> carried only if \<open>tg\<close> carried that value.
\<close>

theorem strip_tag_round_trip:
  assumes nv: "\<not> is_vlan fs"
  shows "((if is_vlan fa then ETH_HLEN + VLAN_HLEN else ETH_HLEN) \<le> skb_len f \<longrightarrow>
            (\<exists>t s. create_tagged_skb (Some j1) (Some f) fa port ver = Inr (Some t)
               \<and> h_proto t = (if ver \<noteq> 0 then ETH_P_HSR else ETH_P_PRP)
               \<and> create_stripped_skb (Some j2) (Some t) fs = Inr (Some t, Some s)
               \<and> skb_data s = skb_data f \<and> data s = data f \<and> mac_header s = data s))
       \<and> (mac_header tg = data tg
            \<and> ETH_HLEN + HSR_PRP_HLEN + (if is_vlan fa then VLAN_HLEN else 0) \<le> skb_len tg \<longrightarrow>
            (\<exists>s t'. create_stripped_skb (Some j1) (Some tg) fs = Inr (Some tg, Some s)
               \<and> create_tagged_skb (Some j2) (Some s) fa port ver = Inr (Some t')
               \<and> get_hsr_tag_path t' = (if ptype port = HSR_PRP_PT_SLAVE_A then 0 else 1)
               \<and> hsr_get_skb_sequence_nr t' = sequence_nr fa
               \<and> h_proto t' = (if ver \<noteq> 0 then ETH_P_HSR else ETH_P_PRP)
               \<and> hsr_tag_encap_proto t' = hsr_tag_encap_proto tg
               \<and> get_hsr_tag_LSDU_size t' =
                   (of_nat (skb_len tg) - 14 - (if is_vlan fa then 4 else 0)) AND 0x0FFF
               \<and> take 12 (skb_data t') = take 12 (skb_data tg)
               \<and> drop 20 (skb_data t') = drop 20 (skb_data tg)))"
  using tag_then_strip [OF nv, of fa f j1 port ver j2]
    strip_then_tag [OF nv, of tg fa j1 j2 port ver]
  by blast

text \<open>The broadcast frame, tagged for slave B and stripped again, is the broadcast
  frame; the tagged frame, stripped and tagged again for slave A with its own sequence
  number, has lane 0, sequence number 7 and payload length 10 as before.\<close>

theorem strip_tag_round_trip_witness:
  "(\<exists>t s. create_tagged_skb (Some (\<lambda>_. 0)) (Some skb_bcast) frame0 port_b 1 = Inr (Some t)
       \<and> create_stripped_skb (Some (\<lambda>_. 0)) (Some t) frame0 = Inr (Some t, Some s)
       \<and> skb_data s = skb_data skb_bcast)
   \<and> (\<exists>s t'. create_stripped_skb (Some (\<lambda>_. 0)) (Some skb_tagged) frame0 = Inr (Some skb_tagged, Some s)
       \<and> create_tagged_skb (Some (\<lambda>_. 0)) (Some s) (frame0\<lparr>sequence_nr := 7\<rparr>) port_a 1 = Inr (Some t')
       \<and> get_hsr_tag_path t' = 0 \<and> hsr_get_skb_sequence_nr t' = 7
       \<and> get_hsr_tag_LSDU_size t' = 10)"
proof -
  have nv: "\<not> is_vlan frame0" by code_simp
  have a: "(if is_vlan frame0 then ETH_HLEN + VLAN_HLEN else ETH_HLEN) \<le> skb_len skb_bcast"
    by code_simp
  have b: "mac_header skb_tagged = data skb_tagged
           \<and> ETH_HLEN + HSR_PRP_HLEN + (if is_vlan (frame0\<lparr>sequence_nr := 7\<rparr>) then VLAN_HLEN else 0)
               \<le> skb_len skb_tagged"
    by code_simp
  have c: "(if ptype port_a = HSR_PRP_PT_SLAVE_A then 0 else 1) = (0 :: u16)"
    "sequence_nr (frame0\<lparr>sequence_nr := 7\<rparr>) = 7"
    "(of_nat (skb_len skb_tagged) - 14 - (if is_vlan (frame0\<lparr>sequence_nr := 7\<rparr>) then 4 else 0)) AND 0x0FFF
       = (10 :: u16)"
    by code_simp+
  from strip_tag_round_trip [OF nv, where fa=frame0 and f=skb_bcast and ?j1.0="\<lambda>_. 0"
      and ?j2.0="\<lambda>_. 0" and port=port_b and ver=1] a
  have p1: "\<exists>t s. create_tagged_skb (Some (\<lambda>_. 0)) (Some skb_bcast) frame0 port_b 1 = Inr (Some t)
       \<and> create_stripped_skb (Some (\<lambda>_. 0)) (Some t) frame0 = Inr (Some t, Some s)
       \<and> skb_data s = skb_data skb_bcast"
    by blast
  from strip_tag_round_trip [OF nv, where fa="frame0\<lparr>sequence_nr := 7\<rparr>" and tg=skb_tagged
      and ?j1.0="\<lambda>_. 0" and ?j2.0="\<lambda>_. 0" and port=port_a and ver=1] b
  have p2: "\<exists>s t'. create_stripped_skb (Some (\<lambda>_. 0)) (Some skb_tagged) frame0 = Inr (Some skb_tagged, Some s)
       \<and> create_tagged_skb (Some (\<lambda>_. 0)) (Some s) (frame0\<lparr>sequence_nr := 7\<rparr>) port_a 1 = Inr (Some t')
       \<and> get_hsr_tag_path t' = 0 \<and> hsr_get_skb_sequence_nr t' = 7
       \<and> get_hsr_tag_LSDU_size t' = 10"
    unfolding c by blast
  from p1 p2 show ?thesis by blast
qed

text \<open>The padded frame has lane 0, sequence number 7, the HSR ethertype and
  payload length 10. Stripped and tagged again for slave A (lane 0) with sequence
  number 7 and protocol version 1, it has payload length 14.\<close>

theorem strip_tag_round_trip_counterexample:
  "(case create_stripped_skb (Some (\<lambda>_. 0)) (Some skb_padded) frame0 of
      Inr (skb_in, Some s) \<Rightarrow>
        (case create_tagged_skb (Some (\<lambda>_. 0)) (Some s)
                (frame0\<lparr>sequence_nr := hsr_get_skb_sequence_nr skb_padded\<rparr>) port_a 1 of
           Inr (Some t') \<Rightarrow>
             get_hsr_tag_path skb_padded = get_hsr_tag_path t'
             \<and> hsr_get_skb_sequence_nr skb_padded = hsr_get_skb_sequence_nr t'
             \<and> h_proto skb_padded = h_proto t'
             \<and> get_hsr_tag_LSDU_size skb_padded = 10
             \<and> get_hsr_tag_LSDU_size t' = 14
         | _ \<Rightarrow> False)
    | _ \<Rightarrow> False)"
  by code_simp

subsection \<open>The forwarding engine\<close>

lemma forward_do_port_guards:
  "forward_do_port env (w, fr) port =
     (case first_exclusion env w fr port of
        Some Excl_a \<Rightarrow> Inr (w, fr)
      | Some Excl_b \<Rightarrow> Inr (w, fr)
      | Some Excl_c \<Rightarrow> Inr (w, fr)
      | Some Excl_d \<Rightarrow> Inr (after_register env w fr port, fr)
      | Some Excl_e \<Rightarrow>
          Inr (emit (Ev_handle_sup_frame port)
                 ((after_register env w fr port)
                    \<lparr>ext := hsr_prp_handle_sup_frame env (ext (after_register env w fr port))
                              (skb_hsr fr) (node_src fr) (port_rcv fr)\<rparr>), fr)
      | Some Excl_f \<Rightarrow> Inr (after_register env w fr port, fr)
      | None \<Rightarrow> dispatch_port env (after_register env w fr port) fr port)"
  by (cases "hsr_register_frame_out env (ext w) port (node_src fr) (sequence_nr fr)")
     (auto simp: forward_do_port_def first_exclusion_def excl_receiving_port_def
        excl_master_not_local_def excl_slave_exclusive_def excl_duplicate_def excl_supervision_def
        excl_cross_slave_def after_register_def doubleton_eq_iff)

lemma dispatches_simps [simp]:
  "dispatches [] = []"
  "dispatches (e # es) = (case dispatch_of e of None \<Rightarrow> dispatches es | Some x \<Rightarrow> x # dispatches es)"
  "dispatches (as @ bs) = dispatches as @ dispatches bs"
  by (simp_all add: dispatches_def map_filter_def split: option.split)

lemma same_context_refl [simp]: "same_context fr fr"
  by (simp add: same_context_def)

lemma same_context_upd [simp]:
  "same_context fr (fr'\<lparr>skb_std := x\<rparr>) = same_context fr fr'"
  "same_context fr (fr'\<lparr>skb_hsr := y\<rparr>) = same_context fr fr'"
  by (simp_all add: same_context_def)

lemma step_effect_refl [simp]: "step_effect w w []"
  by (simp add: step_effect_def)

lemma step_effect_trans:
  "step_effect w w' es \<Longrightarrow> step_effect w' w'' es' \<Longrightarrow> step_effect w w'' (es @ es')"
  by (simp add: step_effect_def)

lemma step_effect_ext [simp]: "step_effect w (w\<lparr>ext := x\<rparr>) []"
  by (simp add: step_effect_def)

lemma alloc_eq:
  "alloc env w = (fst (kmalloc env (ext w)), w\<lparr>ext := snd (kmalloc env (ext w))\<rparr>)"
  by (simp add: alloc_def split: prod.split)

lemma frame_get_stripped_skb_effect:
  "(case frame_get_stripped_skb env w fr port of
      Inl (f, w') \<Rightarrow> step_effect w w' []
    | Inr (skb, w', fr') \<Rightarrow> step_effect w w' [] \<and> same_context fr fr')"
  by (cases "create_stripped_skb (fst (kmalloc env (ext w))) (skb_hsr fr) fr")
     (auto simp: frame_get_stripped_skb_def alloc_eq skb_clone_def step_effect_def
        split: option.splits)

lemma frame_get_tagged_skb_effect:
  "(case frame_get_tagged_skb env w fr port of
      Inl (f, w') \<Rightarrow> step_effect w w' []
    | Inr (skb, w', fr') \<Rightarrow>
        fr' = fr \<and> (step_effect w w' [] \<or> skb = None \<and> step_effect w w' [Ev_WARN]))"
  by (cases "create_tagged_skb (fst (kmalloc env (ext w))) (skb_std fr) fr port (prot_ver (priv w))")
     (auto simp: frame_get_tagged_skb_def alloc_eq skb_clone_def step_effect_def emit_def
        split: option.splits)

lemma hsr_prp_deliver_master_effect:
  "hsr_prp_deliver_master env w skb node port = (w', skb1) \<Longrightarrow>
     \<exists>skb2. step_effect w w' [Ev_netif_rx port skb2]"
  by (cases "netif_rx env (ext w) (skb_pull (if \<not> rx_offloaded (priv w)
                  then hsr_addr_subst_source env (ext w) node skb else skb) ETH_HLEN)")
     (auto simp: hsr_prp_deliver_master_def Let_def emit_def step_effect_def)

lemma hsr_prp_xmit_effect:
  "hsr_prp_xmit env w skb port fr = (w', skb1) \<Longrightarrow> step_effect w w' [Ev_dev_queue_xmit port skb1]"
  by (auto simp: hsr_prp_xmit_def Let_def emit_def step_effect_def)

lemma get_skb_for_port_effect:
  "(case get_skb_for_port env w fr port of
      Inl (f, w') \<Rightarrow> step_effect w w' []
    | Inr (skb, w', fr') \<Rightarrow>
        same_context fr fr' \<and> (\<exists>es. step_effect w w' es \<and> dispatches es = []))"
proof (cases "ptype port = HSR_PRP_PT_MASTER")
  case True
  then show ?thesis
    using frame_get_stripped_skb_effect [where env=env and w=w and fr=fr and port=port]
    by (auto simp: get_skb_for_port_def split: sum.splits)
next
  case False
  then show ?thesis
    using frame_get_tagged_skb_effect [where env=env and w=w and fr=fr and port=port]
    by (fastforce simp: get_skb_for_port_def split: sum.splits)
qed

lemma dispatch_port_effect:
  "(case dispatch_port env w fr port of
      Inl (f, w') \<Rightarrow> \<exists>es. step_effect w w' es \<and> dispatches es = []
    | Inr (w', fr') \<Rightarrow>
        same_context fr fr'
        \<and> (\<exists>es. step_effect w w' es
              \<and> dispatches es =
                  (case get_skb_for_port env w fr port of
                     Inr (Some skb, w2, fr2) \<Rightarrow>
                       [(if ptype port = HSR_PRP_PT_MASTER then Local_delivery else Egress, port)]
                   | _ \<Rightarrow> [])))"
proof (cases "get_skb_for_port env w fr port")
  case (Inl e)
  then show ?thesis
    using get_skb_for_port_effect [where env=env and w=w and fr=fr and port=port]
    by (cases e) (auto simp: dispatch_port_def)
next
  case (Inr r)
  obtain skb w2 fr2 where r: "r = (skb, w2, fr2)" by (cases r)
  from get_skb_for_port_effect [where env=env and w=w and fr=fr and port=port] Inr r
  obtain es where sc: "same_context fr fr2" and se: "step_effect w w2 es" and d: "dispatches es = []"
    by auto
  show ?thesis
  proof (cases skb)
    case None
    with Inr r sc se d show ?thesis by (auto simp: dispatch_port_def)
  next
    case (Some skb0)
    show ?thesis
    proof (cases "ptype port = HSR_PRP_PT_MASTER")
      case True
      obtain w3 skb1 where dm: "hsr_prp_deliver_master env w2 (skb0\<lparr>skb_dev := dev port\<rparr>)
                                   (node_src fr2) port = (w3, skb1)"
        by (cases "hsr_prp_deliver_master env w2 (skb0\<lparr>skb_dev := dev port\<rparr>) (node_src fr2) port")
      from hsr_prp_deliver_master_effect [OF dm] obtain skb2
        where "step_effect w2 w3 [Ev_netif_rx port skb2]" by blast
      with se have "step_effect w w3 (es @ [Ev_netif_rx port skb2])"
        by (rule step_effect_trans)
      moreover have "dispatches (es @ [Ev_netif_rx port skb2]) = [(Local_delivery, port)]"
        using d by simp
      ultimately show ?thesis
        using Inr r Some True dm sc by (auto simp: dispatch_port_def Let_def)
    next
      case False
      obtain w3 skb1 where xm: "hsr_prp_xmit env w2 (skb0\<lparr>skb_dev := dev port\<rparr>) port fr2 = (w3, skb1)"
        by (cases "hsr_prp_xmit env w2 (skb0\<lparr>skb_dev := dev port\<rparr>) port fr2")
      from hsr_prp_xmit_effect [OF xm] se
      have "step_effect w w3 (es @ [Ev_dev_queue_xmit port skb1])"
        by (rule step_effect_trans [rotated])
      moreover have "dispatches (es @ [Ev_dev_queue_xmit port skb1]) = [(Egress, port)]"
        using d by simp
      ultimately show ?thesis
        using Inr r Some False xm sc by (auto simp: dispatch_port_def Let_def)
    qed
  qed
qed

lemma step_effect_after_register [simp]: "step_effect w (after_register env w fr port) []"
  by (simp add: after_register_def step_effect_def)

lemma forward_do_port_effect:
  "(\<exists>es. step_effect w (res_world (forward_do_port env (w, fr) port)) es
        \<and> (\<forall>x \<in> set (dispatches es).
              x = port_dispatch port \<and> first_exclusion env w fr port = None))
   \<and> (case forward_do_port env (w, fr) port of
         Inr (w', fr') \<Rightarrow> same_context fr fr'
       | Inl e \<Rightarrow> True)"
proof (cases "first_exclusion env w fr port")
  case None
  let ?w1 = "after_register env w fr port"
  have eq: "forward_do_port env (w, fr) port = dispatch_port env ?w1 fr port"
    by (simp add: forward_do_port_guards None)
  have s1: "step_effect w ?w1 []" by simp
  show ?thesis
  proof (cases "dispatch_port env ?w1 fr port")
    case (Inl e)
    obtain f w' where e: "e = (f, w')" by (cases e)
    from dispatch_port_effect [where env=env and w="?w1" and fr=fr and port=port] Inl e
    obtain es where "step_effect ?w1 w' es" "dispatches es = []" by auto
    with s1 have "step_effect w w' es" "dispatches es = []"
      using step_effect_trans [of w ?w1 "[]" w' es] by auto
    then show ?thesis using eq Inl e by (auto simp: res_world_def)
  next
    case (Inr r)
    obtain w' fr' where r: "r = (w', fr')" by (cases r)
    from dispatch_port_effect [where env=env and w="?w1" and fr=fr and port=port] Inr r
    obtain es where sc: "same_context fr fr'" and se: "step_effect ?w1 w' es"
      and d: "set (dispatches es) \<subseteq> {port_dispatch port}"
      by (auto simp: port_dispatch_def split: sum.splits option.splits)
    from s1 se have "step_effect w w' es"
      using step_effect_trans [of w ?w1 "[]" w' es] by auto
    then show ?thesis using eq Inr r sc d None by (auto simp: res_world_def)
  qed
next
  case (Some a)
  have e: "step_effect w (emit (Ev_handle_sup_frame port)
                 ((after_register env w fr port)
                    \<lparr>ext := hsr_prp_handle_sup_frame env (ext (after_register env w fr port))
                              (skb_hsr fr) (node_src fr) (port_rcv fr)\<rparr>)) [Ev_handle_sup_frame port]"
    by (simp add: step_effect_def after_register_def emit_def)
  have r: "step_effect w (after_register env w fr port) []" by simp
  have z: "step_effect w w []" by simp
  have d0: "dispatches [Ev_handle_sup_frame port] = []" by simp
  have "\<exists>w' es. forward_do_port env (w, fr) port = Inr (w', fr) \<and> step_effect w w' es
           \<and> dispatches es = []"
  proof (cases a)
    case Excl_a
    with Some z show ?thesis by (simp add: forward_do_port_guards) (rule exI [of _ "[]"], simp)
  next
    case Excl_b
    with Some z show ?thesis by (simp add: forward_do_port_guards) (rule exI [of _ "[]"], simp)
  next
    case Excl_c
    with Some z show ?thesis by (simp add: forward_do_port_guards) (rule exI [of _ "[]"], simp)
  next
    case Excl_d
    with Some r show ?thesis by (simp add: forward_do_port_guards) (rule exI [of _ "[]"], simp)
  next
    case Excl_e
    with Some show ?thesis
      by (simp add: forward_do_port_guards) (rule exI [of _ "[Ev_handle_sup_frame port]"], simp add: e)
  next
    case Excl_f
    with Some r show ?thesis by (simp add: forward_do_port_guards) (rule exI [of _ "[]"], simp)
  qed
  then obtain w' es where "forward_do_port env (w, fr) port = Inr (w', fr)"
    "step_effect w w' es" "dispatches es = []" by blast
  then show ?thesis by (auto simp: res_world_def)
qed

lemma for_each_port_effect:
  "\<exists>es. step_effect w (res_world (for_each_port env (w, fr) ps)) es
      \<and> (\<forall>x \<in> set (dispatches es).
            snd x \<in> set ps \<and> x = port_dispatch (snd x)
            \<and> (ptype (snd x) \<noteq> HSR_PRP_PT_MASTER \<longrightarrow> \<not> is_local_exclusive fr))"
proof (induction ps arbitrary: w fr)
  case Nil
  show ?case by (auto simp: res_world_def intro: exI [of _ "[]"])
next
  case (Cons p ps)
  from forward_do_port_effect [where env=env and w=w and fr=fr and port=p]
  obtain es where se: "step_effect w (res_world (forward_do_port env (w, fr) p)) es"
    and d: "\<forall>x \<in> set (dispatches es). x = port_dispatch p \<and> first_exclusion env w fr p = None"
    and sc: "(case forward_do_port env (w, fr) p of Inr (w', fr') \<Rightarrow> same_context fr fr' | Inl e \<Rightarrow> True)"
    by blast
  have d': "\<forall>x \<in> set (dispatches es).
            snd x \<in> set (p # ps) \<and> x = port_dispatch (snd x)
            \<and> (ptype (snd x) \<noteq> HSR_PRP_PT_MASTER \<longrightarrow> \<not> is_local_exclusive fr)"
  proof
    fix x assume "x \<in> set (dispatches es)"
    with d have x: "x = port_dispatch p" and n: "first_exclusion env w fr p = None" by auto
    from n have "\<not> excl_slave_exclusive fr p"
      by (auto simp: first_exclusion_def split: if_splits)
    with x show "snd x \<in> set (p # ps) \<and> x = port_dispatch (snd x)
            \<and> (ptype (snd x) \<noteq> HSR_PRP_PT_MASTER \<longrightarrow> \<not> is_local_exclusive fr)"
      by (auto simp: port_dispatch_def excl_slave_exclusive_def)
  qed
  show ?case
  proof (cases "forward_do_port env (w, fr) p")
    case (Inl e)
    then show ?thesis using se d' by (auto simp: res_world_def)
  next
    case (Inr r)
    obtain w' fr' where r: "r = (w', fr')" by (cases r)
    from sc Inr r have sc': "same_context fr fr'" by simp
    from se Inr r have se': "step_effect w w' es" by (simp add: res_world_def)
    from Cons.IH [of w' fr'] obtain es'
      where t: "step_effect w' (res_world (for_each_port env (w', fr') ps)) es'"
        and dt: "\<forall>x \<in> set (dispatches es').
            snd x \<in> set ps \<and> x = port_dispatch (snd x)
            \<and> (ptype (snd x) \<noteq> HSR_PRP_PT_MASTER \<longrightarrow> \<not> is_local_exclusive fr')"
      by blast
    have "step_effect w (res_world (for_each_port env (w, fr) (p # ps))) (es @ es')"
      using step_effect_trans [OF se' t] Inr r by simp
    moreover have "\<forall>x \<in> set (dispatches (es @ es')).
            snd x \<in> set (p # ps) \<and> x = port_dispatch (snd x)
            \<and> (ptype (snd x) \<noteq> HSR_PRP_PT_MASTER \<longrightarrow> \<not> is_local_exclusive fr)"
      using d' dt sc' by (auto simp: same_context_def)
    ultimately show ?thesis by blast
  qed
qed

lemma fill_frame_info_effect:
  "(case hsr_prp_fill_frame_info env w ctx skb port of
      (w1, r) \<Rightarrow>
        stats w1 = stats w \<and> ports (priv w1) = ports (priv w)
        \<and> rx_offloaded (priv w1) = rx_offloaded (priv w)
        \<and> (\<exists>es. events w1 = events w @ es \<and> dispatches es = []))"
  by (cases "hsr_prp_get_node env (ext w) port skb (is_supervision_frame (priv w) skb)")
     (simp add: hsr_prp_fill_frame_info_def Let_def assign_sequence_nr_eq check_local_dest_eq emit_def)

lemma kfree_skb_opt_effect: "\<exists>es. step_effect w (kfree_skb_opt s w) es \<and> dispatches es = []"
  by (cases s) (auto simp: kfree_skb_opt_def emit_def step_effect_def)

lemma forward_skb_accepted:
  assumes mac: "skb_mac_header skb = data skb"
    and fill: "hsr_prp_fill_frame_info env w ctx skb port = (w1, Some fr)"
  shows "\<exists>es. events (final_world (hsr_prp_forward_skb env w ctx skb port)) = events w @ es
           \<and> (\<forall>d. tx_dropped (stats (final_world (hsr_prp_forward_skb env w ctx skb port)) d)
                   = tx_dropped (stats w d))
           \<and> (\<forall>x \<in> set (dispatches es).
                 snd x \<in> set (ports (priv w)) \<and> x = port_dispatch (snd x)
                 \<and> (ptype (snd x) \<noteq> HSR_PRP_PT_MASTER \<longrightarrow> \<not> is_local_exclusive fr))"
proof -
  define w2 where "w2 = (if \<not> rx_offloaded (priv w1)
                        then w1\<lparr>ext := hsr_register_frame_in env (ext w1) (node_src fr) port
                                         (sequence_nr fr)\<rparr>
                        else w1)"
  from fill_frame_info_effect [where env=env and w=w and ctx=ctx and skb=skb and port=port] fill
  obtain es1 where st1: "stats w1 = stats w" and p1: "ports (priv w1) = ports (priv w)"
    and e1: "events w1 = events w @ es1" and d1: "dispatches es1 = []"
    by auto
  have w2: "stats w2 = stats w" "ports (priv w2) = ports (priv w)" "events w2 = events w @ es1"
    using st1 p1 e1 by (simp_all add: w2_def)
  from for_each_port_effect [where env=env and w=w2 and fr=fr and ps="ports (priv w2)"]
  obtain es2 where se: "step_effect w2 (res_world (hsr_prp_forward_do env w2 fr)) es2"
    and d2: "\<forall>x \<in> set (dispatches es2).
            snd x \<in> set (ports (priv w2)) \<and> x = port_dispatch (snd x)
            \<and> (ptype (snd x) \<noteq> HSR_PRP_PT_MASTER \<longrightarrow> \<not> is_local_exclusive fr)"
    by (auto simp: hsr_prp_forward_do_def)
  have R: "hsr_prp_forward_skb env w ctx skb port =
             (case hsr_prp_forward_do env w2 fr of
                Inl e \<Rightarrow> Inl e
              | Inr (w3, fr') \<Rightarrow>
                  Inr (kfree_skb_opt (skb_std fr') (kfree_skb_opt (skb_hsr fr') w3)))"
    using mac fill by (simp add: hsr_prp_forward_skb_def w2_def Let_def)
  show ?thesis
  proof (cases "hsr_prp_forward_do env w2 fr")
    case (Inl e)
    obtain f w' where e: "e = (f, w')" by (cases e)
    from se Inl e have "step_effect w2 w' es2" by (simp add: res_world_def)
    then have "events w' = events w @ (es1 @ es2)"
      "\<forall>d. tx_dropped (stats w' d) = tx_dropped (stats w d)"
      using w2 by (simp_all add: step_effect_def)
    moreover have "final_world (hsr_prp_forward_skb env w ctx skb port) = w'"
      using R Inl e by (simp add: final_world_def)
    ultimately show ?thesis using d1 d2 w2 by (intro exI [of _ "es1 @ es2"]) simp
  next
    case (Inr r)
    obtain w3 fr' where r: "r = (w3, fr')" by (cases r)
    from se Inr r have s3: "step_effect w2 w3 es2" by (simp add: res_world_def)
    obtain es3 where s4: "step_effect w3 (kfree_skb_opt (skb_hsr fr') w3) es3"
      and d3: "dispatches es3 = []"
      using kfree_skb_opt_effect by blast
    obtain es4 where s5: "step_effect (kfree_skb_opt (skb_hsr fr') w3)
                            (kfree_skb_opt (skb_std fr') (kfree_skb_opt (skb_hsr fr') w3)) es4"
      and d4: "dispatches es4 = []"
      using kfree_skb_opt_effect by blast
    let ?wf = "kfree_skb_opt (skb_std fr') (kfree_skb_opt (skb_hsr fr') w3)"
    have "step_effect w2 ?wf (es2 @ es3 @ es4)"
      using step_effect_trans [OF s3 step_effect_trans [OF s4 s5]] .
    then have "events ?wf = events w @ (es1 @ es2 @ es3 @ es4)"
      "\<forall>d. tx_dropped (stats ?wf d) = tx_dropped (stats w d)"
      using w2 by (simp_all add: step_effect_def)
    moreover have "final_world (hsr_prp_forward_skb env w ctx skb port) = ?wf"
      using R Inr r by (simp add: final_world_def)
    ultimately show ?thesis
      using d1 d2 d3 d4 w2 by (intro exI [of _ "es1 @ es2 @ es3 @ es4"]) simp
  qed
qed

lemma forward_skb_rejected:
  assumes "skb_mac_header skb \<noteq> data skb \<or> snd (hsr_prp_fill_frame_info env w ctx skb port) = None"
  shows "dispatches (new_events w (final_world (hsr_prp_forward_skb env w ctx skb port))) = []"
proof (cases "skb_mac_header skb \<noteq> data skb")
  case True
  then show ?thesis
    by (simp add: hsr_prp_forward_skb_def out_drop_def emit_def final_world_def new_events_def)
next
  case False
  with assms have n: "snd (hsr_prp_fill_frame_info env w ctx skb port) = None" by simp
  obtain w1 where f: "hsr_prp_fill_frame_info env w ctx skb port = (w1, None)"
    using n by (cases "hsr_prp_fill_frame_info env w ctx skb port") auto
  from fill_frame_info_effect [where env=env and w=w and ctx=ctx and skb=skb and port=port] f
  obtain es1 where "events w1 = events w @ es1" "dispatches es1 = []" by auto
  then show ?thesis
    using False f
    by (simp add: hsr_prp_forward_skb_def out_drop_def emit_def final_world_def new_events_def)
qed

lemma step_effect_new_events: "step_effect w w' es \<Longrightarrow> new_events w w' = es"
  by (simp add: step_effect_def)

lemma vlan_not_supervision: "h_proto skb = ETH_P_8021Q \<Longrightarrow> \<not> is_supervision_frame p skb"
  by (simp add: is_supervision_frame_def)

lemma fill_frame_info_vlan_case:
  assumes "h_proto skb = ETH_P_8021Q"
  shows "(case hsr_prp_fill_frame_info env w ctx skb port of
            (w1, None) \<Rightarrow> True
          | (w1, Some fr) \<Rightarrow>
              is_vlan fr \<and> skb_hsr fr = None \<and> skb_std fr \<noteq> None
              \<and> sequence_nr fr = priv_sequence_nr (priv w)
              \<and> Ev_WARN \<in> set (new_events w w1))"
  using assms
  by (cases "hsr_prp_get_node env (ext w) port skb (is_supervision_frame (priv w) skb)")
     (simp add: hsr_prp_fill_frame_info_def Let_def assign_sequence_nr_eq check_local_dest_eq emit_def
        new_events_def)

lemma forward_do_port_at_most_one:
  "\<exists>es. step_effect w (res_world (forward_do_port env (w, fr) port)) es
      \<and> (dispatches es = [] \<or> dispatches es = [port_dispatch port])"
proof (cases "first_exclusion env w fr port = None")
  case True
  let ?w1 = "after_register env w fr port"
  have eq: "forward_do_port env (w, fr) port = dispatch_port env ?w1 fr port"
    by (simp add: forward_do_port_guards True)
  have s1: "step_effect w ?w1 []" by simp
  show ?thesis
  proof (cases "dispatch_port env ?w1 fr port")
    case (Inl e)
    obtain f w' where e: "e = (f, w')" by (cases e)
    from dispatch_port_effect [where env=env and w="?w1" and fr=fr and port=port] Inl e
    obtain es where "step_effect ?w1 w' es" "dispatches es = []" by auto
    with s1 have "step_effect w w' es" "dispatches es = []"
      using step_effect_trans [of w ?w1 "[]" w' es] by auto
    then show ?thesis using eq Inl e by (auto simp: res_world_def)
  next
    case (Inr r)
    obtain w' fr' where r: "r = (w', fr')" by (cases r)
    from dispatch_port_effect [where env=env and w="?w1" and fr=fr and port=port] Inr r
    obtain es where se: "step_effect ?w1 w' es"
      and d: "dispatches es = [] \<or> dispatches es = [port_dispatch port]"
      by (auto simp: port_dispatch_def split: sum.splits option.splits)
    from s1 se have "step_effect w w' es"
      using step_effect_trans [of w ?w1 "[]" w' es] by auto
    then show ?thesis using eq Inr r d by (auto simp: res_world_def)
  qed
next
  case False
  from forward_do_port_effect [where env=env and w=w and fr=fr and port=port]
  obtain es where se: "step_effect w (res_world (forward_do_port env (w, fr) port)) es"
    and d: "\<forall>x \<in> set (dispatches es). x = port_dispatch port \<and> first_exclusion env w fr port = None"
    by blast
  have "dispatches es = []"
  proof (cases "dispatches es")
    case (Cons x xs)
    then have "x \<in> set (dispatches es)" by simp
    from bspec [OF d this] False show ?thesis by simp
  qed simp
  with se show ?thesis by blast
qed

lemma for_each_port_subseq:
  "\<exists>es. step_effect w (res_world (for_each_port env (w, fr) ps)) es
      \<and> subseq (dispatches es) (map port_dispatch ps)"
proof (induction ps arbitrary: w fr)
  case Nil
  show ?case by (auto simp: res_world_def intro: exI [of _ "[]"])
next
  case (Cons p ps)
  from forward_do_port_at_most_one [where env=env and w=w and fr=fr and port=p]
  obtain es where se: "step_effect w (res_world (forward_do_port env (w, fr) p)) es"
    and d: "dispatches es = [] \<or> dispatches es = [port_dispatch p]"
    by blast
  show ?case
  proof (cases "forward_do_port env (w, fr) p")
    case (Inl e)
    from d have "subseq (dispatches es) (map port_dispatch (p # ps))" by auto
    with se Inl show ?thesis by (auto simp: res_world_def)
  next
    case (Inr r)
    obtain w' fr' where r: "r = (w', fr')" by (cases r)
    from se Inr r have se': "step_effect w w' es" by (simp add: res_world_def)
    from Cons.IH [of w' fr'] obtain es'
      where t: "step_effect w' (res_world (for_each_port env (w', fr') ps)) es'"
        and dt: "subseq (dispatches es') (map port_dispatch ps)"
      by blast
    have "step_effect w (res_world (for_each_port env (w, fr) (p # ps))) (es @ es')"
      using step_effect_trans [OF se' t] Inr r by simp
    moreover have "subseq (dispatches (es @ es')) (map port_dispatch (p # ps))"
      using d dt by auto
    ultimately show ?thesis by blast
  qed
qed

lemma forward_do_port_survivor:
  assumes n: "first_exclusion env w fr port = None"
  shows "(case get_skb_for_port env (after_register env w fr port) fr port of
            Inl (f, w2) \<Rightarrow>
              forward_do_port env (w, fr) port = Inl (f, w2) \<and> dispatches (new_events w w2) = []
          | Inr (None, w2, fr2) \<Rightarrow>
              forward_do_port env (w, fr) port = Inr (w2, fr2) \<and> dispatches (new_events w w2) = []
          | Inr (Some skb, w2, fr2) \<Rightarrow>
              (\<exists>fr3. forward_do_port env (w, fr) port =
                  Inr (fst (if ptype port = HSR_PRP_PT_MASTER
                            then hsr_prp_deliver_master env w2 (skb\<lparr>skb_dev := dev port\<rparr>)
                                   (node_src fr2) port
                            else hsr_prp_xmit env w2 (skb\<lparr>skb_dev := dev port\<rparr>) port fr2), fr3)
                  \<and> same_context fr fr3)
              \<and> dispatches (new_events w (res_world (forward_do_port env (w, fr) port)))
                  = [port_dispatch port])"
proof -
  let ?w1 = "after_register env w fr port"
  have eq: "forward_do_port env (w, fr) port = dispatch_port env ?w1 fr port"
    by (simp add: forward_do_port_guards n)
  have s1: "step_effect w ?w1 []" by simp
  show ?thesis
  proof (cases "get_skb_for_port env ?w1 fr port")
    case (Inl e)
    obtain f w2 where e: "e = (f, w2)" by (cases e)
    from get_skb_for_port_effect [where env=env and w="?w1" and fr=fr and port=port] Inl e
    have "step_effect ?w1 w2 []" by simp
    with s1 have "step_effect w w2 []" using step_effect_trans [of w ?w1 "[]" w2 "[]"] by simp
    then have "dispatches (new_events w w2) = []" by (simp add: step_effect_new_events)
    then show ?thesis using Inl e eq by (simp add: dispatch_port_def)
  next
    case (Inr r)
    obtain skb w2 fr2 where r: "r = (skb, w2, fr2)" by (cases r)
    from get_skb_for_port_effect [where env=env and w="?w1" and fr=fr and port=port] Inr r
    obtain es where sc: "same_context fr fr2" and se: "step_effect ?w1 w2 es"
      and d: "dispatches es = []" by auto
    from s1 se have se': "step_effect w w2 es"
      using step_effect_trans [of w ?w1 "[]" w2 es] by simp
    show ?thesis
    proof (cases skb)
      case None
      from se' d have "dispatches (new_events w w2) = []" by (simp add: step_effect_new_events)
      then show ?thesis using Inr r None eq by (simp add: dispatch_port_def)
    next
      case (Some skb0)
      let ?s = "skb0\<lparr>skb_dev := dev port\<rparr>"
      show ?thesis
      proof (cases "ptype port = HSR_PRP_PT_MASTER")
        case True
        obtain w3 skb1 where dm: "hsr_prp_deliver_master env w2 ?s (node_src fr2) port = (w3, skb1)"
          by (cases "hsr_prp_deliver_master env w2 ?s (node_src fr2) port")
        from hsr_prp_deliver_master_effect [OF dm] obtain skb2
          where "step_effect w2 w3 [Ev_netif_rx port skb2]" by blast
        with se' have "step_effect w w3 (es @ [Ev_netif_rx port skb2])"
          by (rule step_effect_trans)
        then have "dispatches (new_events w w3) = [port_dispatch port]"
          using d True by (simp add: step_effect_new_events port_dispatch_def)
        then show ?thesis
          using Inr r Some True dm eq sc by (simp add: dispatch_port_def Let_def res_world_def)
      next
        case False
        obtain w3 skb1 where xm: "hsr_prp_xmit env w2 ?s port fr2 = (w3, skb1)"
          by (cases "hsr_prp_xmit env w2 ?s port fr2")
        from hsr_prp_xmit_effect [OF xm] se'
        have "step_effect w w3 (es @ [Ev_dev_queue_xmit port skb1])"
          by (rule step_effect_trans [rotated])
        then have "dispatches (new_events w w3) = [port_dispatch port]"
          using d False by (simp add: step_effect_new_events port_dispatch_def)
        then show ?thesis
          using Inr r Some False xm eq sc by (simp add: dispatch_port_def Let_def res_world_def)
      qed
    qed
  qed
qed

lemma forward_do_port_fault_no_dispatch:
  assumes "forward_do_port env (w, fr) port = Inl (f, w')"
  shows "dispatches (new_events w w') = []"
proof (cases "first_exclusion env w fr port")
  case None
  from forward_do_port_survivor [OF None] assms show ?thesis
    by (auto split: sum.splits option.splits)
next
  case (Some a)
  with assms show ?thesis
    by (cases a) (simp_all add: forward_do_port_guards)
qed

lemma forward_do_port_events:
  "\<exists>es. events (res_world (forward_do_port env (w, fr) port)) = events w @ es"
  using forward_do_port_effect [where env=env and w=w and fr=fr and port=port]
  by (auto simp: step_effect_def)

lemma for_each_port_events:
  "\<exists>es. events (res_world (for_each_port env (w, fr) ps)) = events w @ es"
  using for_each_port_effect [where env=env and w=w and fr=fr and ps=ps]
  by (auto simp: step_effect_def)

lemma new_events_trans:
  "events w1 = events w @ es \<Longrightarrow> events w2 = events w1 @ es'
     \<Longrightarrow> new_events w w2 = new_events w w1 @ new_events w1 w2"
  by (simp add: new_events_def)

lemma for_each_port_run:
  "\<exists>k ss. k \<le> length ps \<and> length ss = Suc k \<and> ss ! 0 = (w, fr)
     \<and> (\<forall>i<k. forward_do_port env (ss ! i) (ps ! i) = Inr (ss ! Suc i))
     \<and> (if k = length ps then for_each_port env (w, fr) ps = Inr (ss ! k)
        else (\<exists>e. forward_do_port env (ss ! k) (ps ! k) = Inl e
                \<and> for_each_port env (w, fr) ps = Inl e))
     \<and> dispatches (new_events w (res_world (for_each_port env (w, fr) ps)))
         = concat (map (\<lambda>i. dispatches (new_events (fst (ss ! i)) (fst (ss ! Suc i)))) [0..<k])"
proof (induction ps arbitrary: w fr)
  case Nil
  show ?case
    by (rule exI [of _ 0], rule exI [of _ "[(w, fr)]"]) (simp add: res_world_def new_events_def)
next
  case (Cons p ps)
  show ?case
  proof (cases "forward_do_port env (w, fr) p")
    case (Inl e)
    obtain f w' where e: "e = (f, w')" by (cases e)
    from forward_do_port_fault_no_dispatch [of env w fr p f w'] Inl e
    have "dispatches (new_events w w') = []" by simp
    with Inl e show ?thesis
      by (intro exI [of _ 0] exI [of _ "[(w, fr)]"]) (simp add: res_world_def)
  next
    case (Inr r)
    obtain w' fr' where r: "r = (w', fr')" by (cases r)
    from Cons.IH [of w' fr'] obtain k ss
      where k: "k \<le> length ps" and l: "length ss = Suc k" and z: "ss ! 0 = (w', fr')"
        and st: "\<forall>i<k. forward_do_port env (ss ! i) (ps ! i) = Inr (ss ! Suc i)"
        and fin: "(if k = length ps then for_each_port env (w', fr') ps = Inr (ss ! k)
                   else (\<exists>e. forward_do_port env (ss ! k) (ps ! k) = Inl e
                           \<and> for_each_port env (w', fr') ps = Inl e))"
        and d: "dispatches (new_events w' (res_world (for_each_port env (w', fr') ps)))
                  = concat (map (\<lambda>i. dispatches (new_events (fst (ss ! i)) (fst (ss ! Suc i)))) [0..<k])"
      by blast
    let ?ss = "(w, fr) # ss"
    have fe: "for_each_port env (w, fr) (p # ps) = for_each_port env (w', fr') ps"
      using Inr r by simp
    from forward_do_port_events [of env w fr p] Inr r
    obtain es where e1: "events w' = events w @ es" by (auto simp: res_world_def)
    from for_each_port_events [of env w' fr' ps]
    obtain es' where e2: "events (res_world (for_each_port env (w', fr') ps)) = events w' @ es'"
      by blast
    have a: "Suc k \<le> length (p # ps)" using k by simp
    have b: "length ?ss = Suc (Suc k)" using l by simp
    have c: "?ss ! 0 = (w, fr)" by simp
    have s: "\<forall>i<Suc k. forward_do_port env (?ss ! i) ((p # ps) ! i) = Inr (?ss ! Suc i)"
    proof (intro allI impI)
      fix i assume "i < Suc k"
      then show "forward_do_port env (?ss ! i) ((p # ps) ! i) = Inr (?ss ! Suc i)"
        using st Inr r z by (cases i) simp_all
    qed
    have f: "(if Suc k = length (p # ps) then for_each_port env (w, fr) (p # ps) = Inr (?ss ! Suc k)
              else (\<exists>e. forward_do_port env (?ss ! Suc k) ((p # ps) ! Suc k) = Inl e
                      \<and> for_each_port env (w, fr) (p # ps) = Inl e))"
      unfolding fe using fin by auto
    have "dispatches (new_events w (res_world (for_each_port env (w, fr) (p # ps))))
            = dispatches (new_events w w')
              @ dispatches (new_events w' (res_world (for_each_port env (w', fr') ps)))"
      using new_events_trans [OF e1 e2] fe by simp
    also have "\<dots> = concat (map (\<lambda>i. dispatches (new_events (fst (?ss ! i)) (fst (?ss ! Suc i))))
                         [0..<Suc k])"
      using d z by (simp add: map_upt_Suc del: upt_Suc)
    finally have g: "dispatches (new_events w (res_world (for_each_port env (w, fr) (p # ps))))
            = concat (map (\<lambda>i. dispatches (new_events (fst (?ss ! i)) (fst (?ss ! Suc i))))
                         [0..<Suc k])" .
    show ?thesis
      using a b c s f g by (intro exI [of _ "Suc k"] exI [of _ ?ss] conjI)
  qed
qed

text \<open>
  Claim C1, as amended. For every frame context and every port, the loop body leaves
  the port without asking for a copy exactly when one of the six predicates holds,
  tried in the order (a) to (f), the first that holds deciding what happens: nothing
  for (a), (b), (c); the registry's answer recorded for (d) and (f); the frame handed
  to the supervision handler for (e). The registry is asked only when (a), (b), (c)
  are false and receive-offload is disabled. A port that is left this way gets no
  dispatch attempt. For a port for which no predicate holds the copy is asked for, and
  the body ends in one of three ways: with a copy, the body returns after handing it
  to the port's sink, which is the one dispatch attempt of the port (local delivery
  for a master port, egress otherwise), the classification in the context unchanged;
  with no copy, the body returns with no dispatch attempt and the pass goes on; when
  asking for the copy faults, the body faults with no dispatch attempt. A whole pass
  runs the body on the ports of the list, once each, in the order of the list, every
  run starting where the one before ended, up to the end of the list or to the first
  run that faults; its dispatch attempts are those of the runs, in that order.
\<close>

theorem forward_do_port_exclusions:
  "forward_do_port env (w, fr) port =
     (case first_exclusion env w fr port of
        Some Excl_a \<Rightarrow> Inr (w, fr)
      | Some Excl_b \<Rightarrow> Inr (w, fr)
      | Some Excl_c \<Rightarrow> Inr (w, fr)
      | Some Excl_d \<Rightarrow> Inr (after_register env w fr port, fr)
      | Some Excl_e \<Rightarrow>
          Inr (emit (Ev_handle_sup_frame port)
                 ((after_register env w fr port)
                    \<lparr>ext := hsr_prp_handle_sup_frame env (ext (after_register env w fr port))
                              (skb_hsr fr) (node_src fr) (port_rcv fr)\<rparr>), fr)
      | Some Excl_f \<Rightarrow> Inr (after_register env w fr port, fr)
      | None \<Rightarrow> dispatch_port env (after_register env w fr port) fr port)
   \<and> (first_exclusion env w fr port \<noteq> None \<longrightarrow>
        dispatches (new_events w (res_world (forward_do_port env (w, fr) port))) = [])
   \<and> (first_exclusion env w fr port = None \<longrightarrow>
        (case get_skb_for_port env (after_register env w fr port) fr port of
           Inl (f, w2) \<Rightarrow>
             forward_do_port env (w, fr) port = Inl (f, w2) \<and> dispatches (new_events w w2) = []
         | Inr (None, w2, fr2) \<Rightarrow>
             forward_do_port env (w, fr) port = Inr (w2, fr2) \<and> dispatches (new_events w w2) = []
         | Inr (Some skb, w2, fr2) \<Rightarrow>
             (\<exists>fr3. forward_do_port env (w, fr) port =
                 Inr (fst (if ptype port = HSR_PRP_PT_MASTER
                           then hsr_prp_deliver_master env w2 (skb\<lparr>skb_dev := dev port\<rparr>)
                                  (node_src fr2) port
                           else hsr_prp_xmit env w2 (skb\<lparr>skb_dev := dev port\<rparr>) port fr2), fr3)
                 \<and> same_context fr fr3)
             \<and> dispatches (new_events w (res_world (forward_do_port env (w, fr) port)))
                 = [port_dispatch port]))
   \<and> (\<exists>k ss. k \<le> length (ports (priv w)) \<and> length ss = Suc k \<and> ss ! 0 = (w, fr)
         \<and> (\<forall>i<k. forward_do_port env (ss ! i) (ports (priv w) ! i) = Inr (ss ! Suc i))
         \<and> (if k = length (ports (priv w)) then hsr_prp_forward_do env w fr = Inr (ss ! k)
            else (\<exists>e. forward_do_port env (ss ! k) (ports (priv w) ! k) = Inl e
                    \<and> hsr_prp_forward_do env w fr = Inl e))
         \<and> dispatches (new_events w (res_world (hsr_prp_forward_do env w fr)))
             = concat (map (\<lambda>i. dispatches (new_events (fst (ss ! i)) (fst (ss ! Suc i))))
                         [0..<k]))
   \<and> subseq (dispatches (new_events w (res_world (hsr_prp_forward_do env w fr))))
        (map port_dispatch (ports (priv w)))"
proof (intro conjI impI)
  show "forward_do_port env (w, fr) port =
     (case first_exclusion env w fr port of
        Some Excl_a \<Rightarrow> Inr (w, fr)
      | Some Excl_b \<Rightarrow> Inr (w, fr)
      | Some Excl_c \<Rightarrow> Inr (w, fr)
      | Some Excl_d \<Rightarrow> Inr (after_register env w fr port, fr)
      | Some Excl_e \<Rightarrow>
          Inr (emit (Ev_handle_sup_frame port)
                 ((after_register env w fr port)
                    \<lparr>ext := hsr_prp_handle_sup_frame env (ext (after_register env w fr port))
                              (skb_hsr fr) (node_src fr) (port_rcv fr)\<rparr>), fr)
      | Some Excl_f \<Rightarrow> Inr (after_register env w fr port, fr)
      | None \<Rightarrow> dispatch_port env (after_register env w fr port) fr port)"
    by (rule forward_do_port_guards)
next
  assume ex: "first_exclusion env w fr port \<noteq> None"
  from forward_do_port_effect [where env=env and w=w and fr=fr and port=port]
  obtain es where se: "step_effect w (res_world (forward_do_port env (w, fr) port)) es"
    and d: "\<forall>x \<in> set (dispatches es). x = port_dispatch port \<and> first_exclusion env w fr port = None"
    by blast
  have "dispatches es = []"
  proof (cases "dispatches es")
    case (Cons x xs)
    then have "x \<in> set (dispatches es)" by simp
    from bspec [OF d this] ex show ?thesis by simp
  qed simp
  then show "dispatches (new_events w (res_world (forward_do_port env (w, fr) port))) = []"
    using step_effect_new_events [OF se] by simp
next
  assume n: "first_exclusion env w fr port = None"
  show "(case get_skb_for_port env (after_register env w fr port) fr port of
           Inl (f, w2) \<Rightarrow>
             forward_do_port env (w, fr) port = Inl (f, w2) \<and> dispatches (new_events w w2) = []
         | Inr (None, w2, fr2) \<Rightarrow>
             forward_do_port env (w, fr) port = Inr (w2, fr2) \<and> dispatches (new_events w w2) = []
         | Inr (Some skb, w2, fr2) \<Rightarrow>
             (\<exists>fr3. forward_do_port env (w, fr) port =
                 Inr (fst (if ptype port = HSR_PRP_PT_MASTER
                           then hsr_prp_deliver_master env w2 (skb\<lparr>skb_dev := dev port\<rparr>)
                                  (node_src fr2) port
                           else hsr_prp_xmit env w2 (skb\<lparr>skb_dev := dev port\<rparr>) port fr2), fr3)
                 \<and> same_context fr fr3)
             \<and> dispatches (new_events w (res_world (forward_do_port env (w, fr) port)))
                 = [port_dispatch port])"
    by (rule forward_do_port_survivor [OF n])
next
  show "\<exists>k ss. k \<le> length (ports (priv w)) \<and> length ss = Suc k \<and> ss ! 0 = (w, fr)
         \<and> (\<forall>i<k. forward_do_port env (ss ! i) (ports (priv w) ! i) = Inr (ss ! Suc i))
         \<and> (if k = length (ports (priv w)) then hsr_prp_forward_do env w fr = Inr (ss ! k)
            else (\<exists>e. forward_do_port env (ss ! k) (ports (priv w) ! k) = Inl e
                    \<and> hsr_prp_forward_do env w fr = Inl e))
         \<and> dispatches (new_events w (res_world (hsr_prp_forward_do env w fr)))
             = concat (map (\<lambda>i. dispatches (new_events (fst (ss ! i)) (fst (ss ! Suc i))))
                         [0..<k])"
    unfolding hsr_prp_forward_do_def by (rule for_each_port_run)
next
  from for_each_port_subseq [where env=env and w=w and fr=fr and ps="ports (priv w)"]
  obtain es where se: "step_effect w (res_world (hsr_prp_forward_do env w fr)) es"
    and d: "subseq (dispatches es) (map port_dispatch (ports (priv w)))"
    unfolding hsr_prp_forward_do_def by blast
  show "subseq (dispatches (new_events w (res_world (hsr_prp_forward_do env w fr))))
        (map port_dispatch (ports (priv w)))"
    using d by (simp only: step_effect_new_events [OF se])
qed

text \<open>For the broadcast frame received on slave A, slave A is left by predicate (a)
  with nothing changed; slave B passes the six predicates, and its run of the body
  returns with one egress attempt when the copy is obtained and with none when the
  allocation fails. The whole pass delivers to the master port, then sends on slave B.\<close>

theorem forward_do_port_exclusions_witness:
  "first_exclusion test_env (fst (cls_bcast [])) (the (snd (cls_bcast []))) port_a = Some Excl_a
   \<and> forward_do_port test_env (fst (cls_bcast []), the (snd (cls_bcast []))) port_a
       = Inr (fst (cls_bcast []), the (snd (cls_bcast [])))
   \<and> first_exclusion test_env (fst (cls_bcast [])) (the (snd (cls_bcast []))) port_b = None
   \<and> \<not> isl (forward_do_port test_env (fst (cls_bcast []), the (snd (cls_bcast []))) port_b)
   \<and> dispatches (new_events (fst (cls_bcast []))
        (res_world (forward_do_port test_env (fst (cls_bcast []), the (snd (cls_bcast []))) port_b)))
       = [(Egress, port_b)]
   \<and> first_exclusion test_env (fst (cls_bcast [False])) (the (snd (cls_bcast [False]))) port_b = None
   \<and> \<not> isl (forward_do_port test_env (fst (cls_bcast [False]), the (snd (cls_bcast [False]))) port_b)
   \<and> dispatches (new_events (fst (cls_bcast [False]))
        (res_world (forward_do_port test_env (fst (cls_bcast [False]), the (snd (cls_bcast [False])))
           port_b)))
       = []
   \<and> dispatches (new_events (fst (cls_bcast []))
        (res_world (hsr_prp_forward_do test_env (fst (cls_bcast [])) (the (snd (cls_bcast []))))))
       = [(Local_delivery, port_master), (Egress, port_b)]"
proof -
  let ?w = "fst (cls_bcast [])" and ?fr = "the (snd (cls_bcast []))"
  let ?v = "fst (cls_bcast [False])" and ?gr = "the (snd (cls_bcast [False]))"
  have a: "first_exclusion test_env ?w ?fr port_a = Some Excl_a" by code_simp
  have b: "first_exclusion test_env ?w ?fr port_b = None" by code_simp
  have c: "first_exclusion test_env ?v ?gr port_b = None" by code_simp
  have pd: "port_dispatch port_b = (Egress, port_b)" by code_simp
  have "(case get_skb_for_port test_env (after_register test_env ?w ?fr port_b) ?fr port_b of
           Inr (Some skb, w2, fr2) \<Rightarrow> True | _ \<Rightarrow> False)"
    by code_simp
  then obtain skb w2 fr2
    where g: "get_skb_for_port test_env (after_register test_env ?w ?fr port_b) ?fr port_b
                = Inr (Some skb, w2, fr2)"
    by (auto split: sum.splits option.splits prod.splits)
  have "(case get_skb_for_port test_env (after_register test_env ?v ?gr port_b) ?gr port_b of
           Inr (None, w2, fr2) \<Rightarrow> True | _ \<Rightarrow> False)"
    by code_simp
  then obtain v2 gr2
    where h: "get_skb_for_port test_env (after_register test_env ?v ?gr port_b) ?gr port_b
                = Inr (None, v2, gr2)"
    by (auto split: sum.splits option.splits prod.splits)
  note t = forward_do_port_exclusions [where env=test_env and w="?w" and fr="?fr"]
  note u = forward_do_port_exclusions [where env=test_env and w="?v" and fr="?gr" and port=port_b]
  from t [where port=port_a] a
  have 1: "forward_do_port test_env (?w, ?fr) port_a = Inr (?w, ?fr)" by simp
  from t [where port=port_b, THEN conjunct2, THEN conjunct2, THEN conjunct1, rule_format, OF b]
  have 2: "\<not> isl (forward_do_port test_env (?w, ?fr) port_b)
         \<and> dispatches (new_events ?w (res_world (forward_do_port test_env (?w, ?fr) port_b)))
             = [(Egress, port_b)]"
    by (auto simp: g pd)
  from u [THEN conjunct2, THEN conjunct2, THEN conjunct1, rule_format, OF c]
  have 3: "\<not> isl (forward_do_port test_env (?v, ?gr) port_b)
         \<and> dispatches (new_events ?v (res_world (forward_do_port test_env (?v, ?gr) port_b))) = []"
    by (auto simp: h res_world_def)
  have 4: "dispatches (new_events ?w (res_world (hsr_prp_forward_do test_env ?w ?fr)))
             = [(Local_delivery, port_master), (Egress, port_b)]"
    by code_simp
  show ?thesis using a b c 1 2 3 4 by simp
qed

text \<open>The same frame when the second allocation of the pass fails: after the master
  port and slave A have had their turn, none of the six predicates holds for slave B,
  the pass goes on, and slave B gets no dispatch attempt.\<close>

theorem forward_do_port_exclusions_counterexample:
  "(case for_each_port test_env (fst (cls_bcast [True, False]), the (snd (cls_bcast [True, False])))
           [port_master, port_a] of
      Inr (w2, fr2) \<Rightarrow>
        first_exclusion test_env w2 fr2 port_b = None
        \<and> (case forward_do_port test_env (w2, fr2) port_b of
             Inr (w3, fr3) \<Rightarrow> dispatches (new_events w2 w3) = []
           | Inl e \<Rightarrow> False)
    | Inl e \<Rightarrow> False)"
  by code_simp

text \<open>
  Claim C3, as amended. A frame with ethertype 0x8100 and its MAC header at the start
  of the data is not dropped for being VLAN: the classifier rejects it only when the
  peer lookup fails; otherwise it marks the frame VLAN, logs a warning, treats it as
  untagged (kept as the untagged buffer, sequence number from the counter), and the
  frame goes through the forwarding engine, with no transmit drop counted on any
  device.
\<close>

theorem vlan_frame_processed:
  assumes vlan: "h_proto skb = ETH_P_8021Q" and mac: "skb_mac_header skb = data skb"
  shows "(snd (hsr_prp_fill_frame_info env w ctx skb port) = None \<longleftrightarrow>
            \<not> rx_offloaded (priv w) \<and> fst (hsr_prp_get_node env (ext w) port skb False) = None)
       \<and> (\<forall>w1 fr. hsr_prp_fill_frame_info env w ctx skb port = (w1, Some fr) \<longrightarrow>
            is_vlan fr \<and> skb_hsr fr = None \<and> skb_std fr \<noteq> None
            \<and> sequence_nr fr = priv_sequence_nr (priv w)
            \<and> Ev_WARN \<in> set (new_events w w1)
            \<and> hsr_prp_forward_skb env w ctx skb port =
                (case hsr_prp_forward_do env
                        (if \<not> rx_offloaded (priv w1)
                         then w1\<lparr>ext := hsr_register_frame_in env (ext w1) (node_src fr) port
                                          (sequence_nr fr)\<rparr>
                         else w1) fr of
                   Inl e \<Rightarrow> Inl e
                 | Inr (w3, fr') \<Rightarrow>
                     Inr (kfree_skb_opt (skb_std fr') (kfree_skb_opt (skb_hsr fr') w3)))
            \<and> (\<forall>d. tx_dropped (stats (final_world (hsr_prp_forward_skb env w ctx skb port)) d)
                    = tx_dropped (stats w d)))"
proof (intro conjI allI impI)
  show "snd (hsr_prp_fill_frame_info env w ctx skb port) = None \<longleftrightarrow>
            \<not> rx_offloaded (priv w) \<and> fst (hsr_prp_get_node env (ext w) port skb False) = None"
    using vlan_not_supervision [OF vlan, of "priv w"] by (simp add: fill_frame_info_fail_iff)
next
  fix w1 fr d
  assume f: "hsr_prp_fill_frame_info env w ctx skb port = (w1, Some fr)"
  note c = fill_frame_info_vlan_case [OF vlan, where env=env and w=w and ctx=ctx and port=port]
  from c f show "is_vlan fr" "skb_hsr fr = None" "skb_std fr \<noteq> None"
    "sequence_nr fr = priv_sequence_nr (priv w)" "Ev_WARN \<in> set (new_events w w1)"
    by simp_all
  show "hsr_prp_forward_skb env w ctx skb port =
                (case hsr_prp_forward_do env
                        (if \<not> rx_offloaded (priv w1)
                         then w1\<lparr>ext := hsr_register_frame_in env (ext w1) (node_src fr) port
                                          (sequence_nr fr)\<rparr>
                         else w1) fr of
                   Inl e \<Rightarrow> Inl e
                 | Inr (w3, fr') \<Rightarrow>
                     Inr (kfree_skb_opt (skb_std fr') (kfree_skb_opt (skb_hsr fr') w3)))"
    using mac f by (simp add: hsr_prp_forward_skb_def Let_def)
  from forward_skb_accepted [OF mac f]
  show "tx_dropped (stats (final_world (hsr_prp_forward_skb env w ctx skb port)) d)
          = tx_dropped (stats w d)"
    by blast
qed

text \<open>The VLAN frame received on slave A is accepted and marked, and slave A's device
  counts no drop.\<close>

theorem vlan_frame_processed_witness:
  "snd cls_vlan \<noteq> None \<and> is_vlan (the (snd cls_vlan))
   \<and> tx_dropped (stats (final_world (hsr_prp_forward_skb test_env (test_world []) frame0 skb_vlan port_a))
        (dev port_a)) = 0"
proof -
  have v: "h_proto skb_vlan = ETH_P_8021Q" by code_simp
  have m: "skb_mac_header skb_vlan = data skb_vlan" by code_simp
  have n: "snd cls_vlan \<noteq> None" by code_simp
  then have c: "hsr_prp_fill_frame_info test_env (test_world []) frame0 skb_vlan port_a
                  = (fst cls_vlan, Some (the (snd cls_vlan)))"
    by (cases cls_vlan) (auto simp: cls_vlan_def)
  have z: "tx_dropped (stats (test_world []) (dev port_a)) = 0" by code_simp
  note t = vlan_frame_processed [OF v m, where env=test_env and w="test_world []" and ctx=frame0
      and port=port_a, THEN conjunct2, rule_format, OF c]
  from t have "is_vlan (the (snd cls_vlan))" by simp
  moreover from t
  have "\<forall>d. tx_dropped (stats (final_world (hsr_prp_forward_skb test_env (test_world []) frame0
                  skb_vlan port_a)) d) = tx_dropped (stats (test_world []) d)"
    by blast
  then have "tx_dropped (stats (final_world (hsr_prp_forward_skb test_env (test_world []) frame0 skb_vlan port_a))
        (dev port_a)) = 0"
    using z by (simp only:)
  ultimately show ?thesis using n by simp
qed

text \<open>The VLAN frame received on slave A of the concrete node: no drop is counted,
  and the frame is delivered locally and sent out on slave B.\<close>

theorem vlan_frame_processed_counterexample:
  "h_proto skb_vlan = ETH_P_8021Q
   \<and> (case hsr_prp_forward_skb test_env (test_world []) frame0 skb_vlan port_a of
        Inr w' \<Rightarrow>
          tx_dropped (stats w' (dev port_a)) = 0
          \<and> dispatches (events w') = [(Local_delivery, port_master), (Egress, port_b)]
      | Inl e \<Rightarrow> False)"
  by code_simp

text \<open>
  Claim C6. A frame whose destination is the node's own address (as the classifier
  tests it) is dispatched to master ports only, by local delivery: no dispatch attempt
  of the whole pass is an egress or goes to a port that is not master. The same holds
  for the forwarding engine on any frame context marked exclusively local.
\<close>

theorem exclusive_local_master_only:
  "(hsr_prp_addr_is_self env (priv (fst (hsr_prp_fill_frame_info env w ctx skb port))) (h_dest skb) \<longrightarrow>
      (\<forall>x \<in> set (dispatches (new_events w (final_world (hsr_prp_forward_skb env w ctx skb port)))).
          fst x = Local_delivery \<and> ptype (snd x) = HSR_PRP_PT_MASTER))
   \<and> (is_local_exclusive fr \<longrightarrow>
      (\<forall>x \<in> set (dispatches (new_events w (res_world (hsr_prp_forward_do env w fr)))).
          fst x = Local_delivery \<and> ptype (snd x) = HSR_PRP_PT_MASTER))"
proof (intro conjI impI)
  assume self: "hsr_prp_addr_is_self env (priv (fst (hsr_prp_fill_frame_info env w ctx skb port)))
                  (h_dest skb)"
  let ?R = "hsr_prp_forward_skb env w ctx skb port"
  show "\<forall>x \<in> set (dispatches (new_events w (final_world ?R))).
          fst x = Local_delivery \<and> ptype (snd x) = HSR_PRP_PT_MASTER"
  proof (cases "skb_mac_header skb \<noteq> data skb
                \<or> snd (hsr_prp_fill_frame_info env w ctx skb port) = None")
    case True
    from forward_skb_rejected [OF True] show ?thesis by simp
  next
    case False
    then obtain w1 fr1 where f: "hsr_prp_fill_frame_info env w ctx skb port = (w1, Some fr1)"
      by (cases "hsr_prp_fill_frame_info env w ctx skb port") auto
    from fill_frame_info_flags_case [where env=env and w=w and frame=ctx and skb=skb and port=port]
      f self
    have ex: "is_local_exclusive fr1" by simp
    from False have mac: "skb_mac_header skb = data skb" by simp
    from forward_skb_accepted [OF mac f] obtain es
      where e: "events (final_world ?R) = events w @ es"
        and d: "\<forall>x \<in> set (dispatches es).
                 snd x \<in> set (ports (priv w)) \<and> x = port_dispatch (snd x)
                 \<and> (ptype (snd x) \<noteq> HSR_PRP_PT_MASTER \<longrightarrow> \<not> is_local_exclusive fr1)"
      by blast
    have ne: "new_events w (final_world ?R) = es" using e by simp
    show ?thesis
      unfolding ne
    proof
      fix x assume "x \<in> set (dispatches es)"
      from bspec [OF d this] ex
      have m: "ptype (snd x) = HSR_PRP_PT_MASTER" and x: "x = port_dispatch (snd x)" by auto
      from x m have "fst x = Local_delivery"
        by (metis fst_conv port_dispatch_def)
      with m show "fst x = Local_delivery \<and> ptype (snd x) = HSR_PRP_PT_MASTER" by simp
    qed
  qed
next
  assume ex: "is_local_exclusive fr"
  from for_each_port_effect [where env=env and w=w and fr=fr and ps="ports (priv w)"]
  obtain es where se: "step_effect w (res_world (hsr_prp_forward_do env w fr)) es"
    and d: "\<forall>x \<in> set (dispatches es).
            snd x \<in> set (ports (priv w)) \<and> x = port_dispatch (snd x)
            \<and> (ptype (snd x) \<noteq> HSR_PRP_PT_MASTER \<longrightarrow> \<not> is_local_exclusive fr)"
    by (auto simp: hsr_prp_forward_do_def)
  show "\<forall>x \<in> set (dispatches (new_events w (res_world (hsr_prp_forward_do env w fr)))).
          fst x = Local_delivery \<and> ptype (snd x) = HSR_PRP_PT_MASTER"
    unfolding step_effect_new_events [OF se]
  proof
    fix x assume "x \<in> set (dispatches es)"
    from bspec [OF d this] ex
    have m: "ptype (snd x) = HSR_PRP_PT_MASTER" and x: "x = port_dispatch (snd x)" by auto
    from x m have "fst x = Local_delivery"
      by (metis fst_conv port_dispatch_def)
    with m show "fst x = Local_delivery \<and> ptype (snd x) = HSR_PRP_PT_MASTER" by simp
  qed
qed

text \<open>The frame to the node's own address, received on slave A of the node with
  slave B also configured: the one dispatch attempt is the local delivery.\<close>

theorem exclusive_local_master_only_witness:
  "list_all (\<lambda>x. fst x = Local_delivery \<and> ptype (snd x) = HSR_PRP_PT_MASTER)
     (dispatches (new_events (test_world [])
        (final_world (hsr_prp_forward_skb test_env (test_world []) frame0 skb_self port_a))))
   \<and> dispatches (new_events (test_world [])
        (final_world (hsr_prp_forward_skb test_env (test_world []) frame0 skb_self port_a)))
      = [(Local_delivery, port_master)]
   \<and> port_a \<in> set (ports (priv (test_world []))) \<and> port_b \<in> set (ports (priv (test_world [])))"
proof -
  have s: "hsr_prp_addr_is_self test_env
             (priv (fst (hsr_prp_fill_frame_info test_env (test_world []) frame0 skb_self port_a)))
             (h_dest skb_self)"
    by code_simp
  have d: "dispatches (new_events (test_world [])
        (final_world (hsr_prp_forward_skb test_env (test_world []) frame0 skb_self port_a)))
      = [(Local_delivery, port_master)]"
    by code_simp
  have p: "port_a \<in> set (ports (priv (test_world [])))" "port_b \<in> set (ports (priv (test_world [])))"
    by code_simp+
  from exclusive_local_master_only [where env=test_env and w="test_world []" and ctx=frame0
      and skb=skb_self and port=port_a] s
  have "list_all (\<lambda>x. fst x = Local_delivery \<and> ptype (snd x) = HSR_PRP_PT_MASTER)
     (dispatches (new_events (test_world [])
        (final_world (hsr_prp_forward_skb test_env (test_world []) frame0 skb_self port_a))))"
    by (simp add: list_all_iff)
  with d p show ?thesis by simp
qed

text \<open>The two ways to a copy differ when the allocation fails. With a frame at hand,
  \<^verbatim>\<open>frame_get_tagged_skb\<close> always returns, with a buffer or with none. When the stripped
  form is not cached yet and the allocation in \<^verbatim>\<open>create_stripped_skb\<close> fails,
  \<^verbatim>\<open>frame_get_stripped_skb\<close> clones the null pointer.\<close>

lemma frame_get_tagged_skb_returns:
  assumes "skb_hsr fr \<noteq> None \<or> skb_std fr \<noteq> None"
  shows "\<exists>r. frame_get_tagged_skb env w fr port = Inr r"
  using assms
  by (cases "fst (kmalloc env (ext w))")
     (auto simp: frame_get_tagged_skb_def alloc_eq create_tagged_skb_def skb_push_def
        pskb_copy_def skb_clone_def skb_reset_mac_header_def skb_headroom_def Let_def
        HSR_PRP_HLEN_def)

lemma frame_get_stripped_skb_null_deref:
  assumes "skb_std fr = None" and "skb_hsr fr = Some t" and "HSR_PRP_HLEN \<le> skb_len t"
    and "fst (kmalloc env (ext w)) = None"
  shows "frame_get_stripped_skb env w fr port
           = Inl (NULL_deref, w\<lparr>ext := snd (kmalloc env (ext w))\<rparr>)"
  using assms
  by (simp add: frame_get_stripped_skb_def alloc_eq create_stripped_skb_def skb_pull_def
      skb_push_def pskb_copy_def skb_clone_def Let_def)

text \<open>
  Claim C7. What the code does when the strip for the master port fails: the tagged
  frame to the node's own address is received on slave A, the master port passes the
  six predicates, the allocation in \<^verbatim>\<open>create_stripped_skb\<close> fails, the cache stays
  empty, and \<^verbatim>\<open>skb_clone\<close> is called on the null pointer: the pass ends in a fault
  and nothing is dispatched.
\<close>

theorem failed_strip_faults:
  "(case hsr_prp_fill_frame_info test_env (test_world [False]) frame0 skb_tagged port_a of
      (w1, Some fr) \<Rightarrow>
        first_exclusion test_env w1 fr port_master = None
        \<and> (case frame_get_stripped_skb test_env (after_register test_env w1 fr port_master) fr port_master of
             Inl (f, w') \<Rightarrow> f = NULL_deref
           | Inr r \<Rightarrow> False)
    | (w1, None) \<Rightarrow> False)
   \<and> (case hsr_prp_forward_skb test_env (test_world [False]) frame0 skb_tagged port_a of
        Inl (f, w') \<Rightarrow> f = NULL_deref \<and> dispatches (events w') = []
      | Inr w' \<Rightarrow> False)"
  by code_simp

end
